theory Spec2Isabelle
  imports Complex_Main "HOL-Library.AList"
begin

section \<open>The training driver \<^verbatim>\<open>assignment_2/part1/train.py\<close>\<close>

text \<open>
  The driver is a procedural script over collaborators it does not define: the three
  recurrent models, the palindrome dataset, the data loader, the loss, the optimizer and
  the automatic-differentiation engine. The embedding keeps the script's own control
  flow and data (the configuration, the accuracy array, the statistics dictionary, the
  file names) and takes the collaborators as parameters (\<open>env\<close>). What the script asks of
  them is written to an event list, one event per call, in the order of the calls; a call
  that raises is the last event of its run.

  Numbers: Python integers are \<open>int\<close>; the floating-point accuracies are exact rationals
  (\<open>rat\<close>), so rounding is not part of the model.
\<close>

subsection \<open>Python values and errors\<close>

datatype py_error =
  AssertionError | ValueError | IndexError | ZeroDivisionError | TypeError | UnboundLocalError

datatype pyval =
  PyStr string | PyInt int | PyFloat rat | PyBool bool | PyArray "rat list"

type_synonym stats = "(string \<times> pyval) list"

text \<open>The namespace built by the argument parser, one field per \<^verbatim>\<open>add_argument\<close>.\<close>

record config =
  model_type :: string
  input_length :: int
  input_dim :: int
  num_classes :: int
  num_hidden :: int
  batch_size :: int
  learning_rate :: rat
  train_steps :: int
  max_norm :: rat
  device :: string
  experiment_flag :: bool
  print_every :: int

text \<open>\<^verbatim>\<open>vars(config).items()\<close>: the entries in the order the parser declares them.\<close>

definition vars_config :: "config \<Rightarrow> (string \<times> pyval) list" where
  "vars_config config =
     [(''model_type'', PyStr (model_type config)),
      (''input_length'', PyInt (input_length config)),
      (''input_dim'', PyInt (input_dim config)),
      (''num_classes'', PyInt (num_classes config)),
      (''num_hidden'', PyInt (num_hidden config)),
      (''batch_size'', PyInt (batch_size config)),
      (''learning_rate'', PyFloat (learning_rate config)),
      (''train_steps'', PyInt (train_steps config)),
      (''max_norm'', PyFloat (max_norm config)),
      (''device'', PyStr (device config)),
      (''experiment'', PyBool (experiment_flag config)),
      (''print_every'', PyInt (print_every config))]"

subsection \<open>Strings\<close>

text \<open>
  \<^verbatim>\<open>str.lower()\<close> on the ASCII letters; every other character is left as it is. No
  character outside \<open>A\<close>..\<open>Z\<close> lowers to a letter of \<open>rnn\<close>, \<open>lstm\<close>, \<open>rrn\<close> or \<open>cuda\<close>,
  so the comparisons of the script are decided as in Python.
\<close>

definition lower_char :: "char \<Rightarrow> char" where
  "lower_char c =
     (case map_of (zip ''ABCDEFGHIJKLMNOPQRSTUVWXYZ'' ''abcdefghijklmnopqrstuvwxyz'') c of
        Some d \<Rightarrow> d
      | None \<Rightarrow> c)"

definition lower :: "string \<Rightarrow> string" where
  "lower s = map lower_char s"

text \<open>\<^verbatim>\<open>str(n)\<close> for an integer: decimal digits, with a minus sign when negative.\<close>

definition digit_char :: "nat \<Rightarrow> char" where
  "digit_char d = ''0123456789'' ! d"

function str_nat :: "nat \<Rightarrow> string" where
  "str_nat n = (if n < 10 then [digit_char n] else str_nat (n div 10) @ [digit_char (n mod 10)])"
  by pat_completeness auto
termination
  by (relation "measure (\<lambda>n. n)") auto

declare str_nat.simps [simp del]

definition str_int :: "int \<Rightarrow> string" where
  "str_int i = (if i < 0 then CHR ''-'' # str_nat (nat (- i)) else str_nat (nat i))"

text \<open>\<^verbatim>\<open>bool(s)\<close> for a string: only the empty string is false.\<close>

definition py_bool_str :: "string \<Rightarrow> bool" where
  "py_bool_str s = (s \<noteq> [])"

subsection \<open>The numpy operations the script uses\<close>

text \<open>\<^verbatim>\<open>np.zeros(n)\<close>: a negative dimension raises \<^verbatim>\<open>ValueError\<close>.\<close>

definition np_zeros :: "int \<Rightarrow> py_error + rat list" where
  "np_zeros n = (if n < 0 then Inl ValueError else Inr (replicate (nat n) 0))"

text \<open>Indexing: a negative index counts from the end; out of range raises.\<close>

definition np_index :: "nat \<Rightarrow> int \<Rightarrow> nat option" where
  "np_index n i =
     (let j = (if i < 0 then i + int n else i)
      in if 0 \<le> j \<and> j < int n then Some (nat j) else None)"

definition np_get :: "rat list \<Rightarrow> int \<Rightarrow> py_error + rat" where
  "np_get a i = (case np_index (length a) i of None \<Rightarrow> Inl IndexError | Some j \<Rightarrow> Inr (a ! j))"

definition np_set :: "rat list \<Rightarrow> int \<Rightarrow> rat \<Rightarrow> py_error + rat list" where
  "np_set a i v =
     (case np_index (length a) i of None \<Rightarrow> Inl IndexError | Some j \<Rightarrow> Inr (a[j := v]))"

text \<open>
  Slicing \<^verbatim>\<open>a[lo:hi]\<close> with step one: a negative bound has the length added and is
  then clipped at zero, a non-negative bound is clipped at the length; the slice is
  empty when the start is not below the stop. It never raises.
\<close>

definition slice_bound :: "nat \<Rightarrow> int \<Rightarrow> nat" where
  "slice_bound n i = (if i < 0 then nat (max 0 (i + int n)) else min (nat i) n)"

definition np_slice :: "rat list \<Rightarrow> int \<Rightarrow> int \<Rightarrow> rat list" where
  "np_slice a lo hi =
     (let l = slice_bound (length a) lo; h = slice_bound (length a) hi
      in take (h - l) (drop l a))"

text \<open>
  The index of the first maximal entry, as \<^verbatim>\<open>argmax\<close> returns it in both libraries.
  The scan keeps the best index so far and replaces it only by a strictly larger entry.
  \<open>argmax\<close> is meant for a non-empty list; \<open>np_argmax\<close> raises on the empty array as
  numpy does.
\<close>

fun argmax_aux :: "nat \<Rightarrow> rat \<Rightarrow> nat \<Rightarrow> rat list \<Rightarrow> nat" where
  "argmax_aux bi bv i [] = bi"
| "argmax_aux bi bv i (x # xs) =
     (if bv < x then argmax_aux i x (Suc i) xs else argmax_aux bi bv (Suc i) xs)"

definition argmax :: "rat list \<Rightarrow> nat" where
  "argmax xs = (case xs of [] \<Rightarrow> 0 | x # rest \<Rightarrow> argmax_aux 0 x 1 rest)"

definition np_argmax :: "rat list \<Rightarrow> py_error + nat" where
  "np_argmax a = (if a = [] then Inl ValueError else Inr (argmax a))"

text \<open>\<^verbatim>\<open>range(start, stop, step)\<close> for a positive step.\<close>

function py_range :: "int \<Rightarrow> int \<Rightarrow> int \<Rightarrow> int list" where
  "py_range i stop step =
     (if 0 < step \<and> i < stop then i # py_range (i + step) stop step else [])"
  by pat_completeness auto
termination
  by (relation "measure (\<lambda>(i, stop, step). nat (stop - i))") auto

declare py_range.simps [simp del]

subsection \<open>The accuracy of a batch\<close>

text \<open>
  \<^verbatim>\<open>torch.sum(predictions.argmax(dim=1) == label).to(torch.float) / config.batch_size\<close>.
  \<open>predictions\<close> holds one row of class scores per example and \<open>label\<close> one class index
  per example; the rows are compared with the labels position by position and the
  matches are counted. The quotient is exact. The function is used on batches shaped as
  the loader and the models produce them: as many rows as labels, no row empty, and a
  batch size that is not zero (a batch size of zero makes the quotient \<open>nan\<close> or \<open>inf\<close> in
  the library, which the rationals do not have; \<open>train\<close> never gets there, see
  \<open>train_setup\<close>).
\<close>

definition accuracy :: "rat list list \<Rightarrow> nat list \<Rightarrow> config \<Rightarrow> rat" where
  "accuracy predictions label config =
     of_nat (length (filter (\<lambda>(p, l). argmax p = l) (zip predictions label)))
       / of_int (batch_size config)"

subsection \<open>Collaborators and events\<close>

datatype torch_device = Cpu | Cuda

datatype model_class = VanillaRNN | LSTM | RRN

datatype npy = Floats "rat list" | Objects "stats list"

text \<open>
  One event per call the script makes on a collaborator or on the outside world. The
  events of a loop iteration carry the step index. \<open>New_model\<close> lists the constructor's
  keyword arguments in the order \<open>seq_length\<close>, \<open>input_dim\<close>, \<open>num_hidden\<close>,
  \<open>num_classes\<close>, \<open>batch_size\<close>, \<open>device\<close>; \<open>New_loader\<close> the batch size and
  \<open>num_workers\<close>.
\<close>

datatype event =
    Print_config "(string \<times> pyval) list"
  | New_model model_class int int int int int torch_device
  | New_dataset int
  | New_loader int int
  | New_criterion
  | New_optimizer rat
  | Forward nat
  | Loss nat
  | Zero_grad nat
  | Backward nat
  | Clip_grad_norm nat rat
  | Optimizer_step nat
  | Store_acc nat rat
  | Print_step nat
  | Print_done
  | Torch_save string
  | Numpy_save string npy

text \<open>
  The collaborators. \<open>'x\<close> is a batch of inputs, \<open>'s\<close> the state the engine keeps (model
  parameters, gradients, optimizer accumulators). \<open>batches\<close> gives the batches the loader
  yields for a dataset of the given sequence length and a given batch size, each a pair
  of inputs and targets; the driver never draws more than \<open>train_steps + 1\<close> of them, so
  a finite list stands for the loader.
\<close>

record ('x, 's) env =
  cuda_is_available :: bool
  new_model :: "model_class \<Rightarrow> int \<Rightarrow> int \<Rightarrow> int \<Rightarrow> int \<Rightarrow> int \<Rightarrow> torch_device \<Rightarrow> 's"
  batches :: "int \<Rightarrow> int \<Rightarrow> ('x \<times> nat list) list"
  forward :: "'s \<Rightarrow> 'x \<Rightarrow> rat list list"
  criterion :: "rat list list \<Rightarrow> nat list \<Rightarrow> rat"
  zero_grad :: "'s \<Rightarrow> 's"
  backward :: "'s \<Rightarrow> 'x \<Rightarrow> nat list \<Rightarrow> 's"
  clip_grad_norm :: "rat \<Rightarrow> 's \<Rightarrow> 's"
  optimizer_step :: "'s \<Rightarrow> 's"

subsection \<open>\<^verbatim>\<open>train\<close>\<close>

datatype control = Continue | Break | Raise py_error

text \<open>
  The body of the loop at \<open>step\<close>, on one batch: forward pass, loss, \<^verbatim>\<open>zero_grad\<close>,
  \<^verbatim>\<open>backward\<close>, gradient clipping, optimizer step, the store \<^verbatim>\<open>train_acc[step] = ...\<close>,
  the print every \<open>print_every\<close> steps (\<^verbatim>\<open>step % 0\<close> raises), the moving average and the
  test that leaves the loop. It returns its events, the accuracy array, the engine state
  and how the loop goes on.
\<close>

definition train_step ::
  "('x, 's) env \<Rightarrow> config \<Rightarrow> nat \<Rightarrow> 'x \<times> nat list \<Rightarrow> 's \<Rightarrow> rat list
     \<Rightarrow> event list \<times> rat list \<times> 's \<times> control" where
  "train_step E config step batch model train_acc =
     (let batch_inputs = fst batch;
          batch_targets = snd batch;
          y_pred = forward E model batch_inputs;
          loss = criterion E y_pred batch_targets;
          model1 = zero_grad E model;
          model2 = backward E model1 batch_inputs batch_targets;
          model3 = clip_grad_norm E (max_norm config) model2;
          model4 = optimizer_step E model3;
          acc = accuracy y_pred batch_targets config;
          ops = [Forward step, Loss step, Zero_grad step, Backward step,
                 Clip_grad_norm step (max_norm config), Optimizer_step step,
                 Store_acc step acc]
      in case np_set train_acc (int step) acc of
           Inl e \<Rightarrow> (ops, train_acc, model4, Raise e)
         | Inr train_acc' \<Rightarrow>
             if print_every config = 0 then (ops, train_acc', model4, Raise ZeroDivisionError)
             else
               let prints = (if int step mod print_every config = 0 then [Print_step step] else []);
                   acc_MA = sum_list (np_slice train_acc' (int step - 4) (int step + 1)) / 5
               in (ops @ prints, train_acc', model4,
                   if int step = train_steps config \<or> acc_MA = 1 then Break else Continue))"

text \<open>
  \<^verbatim>\<open>for step, (batch_inputs, batch_targets) in enumerate(data_loader)\<close>: the loop ends
  when the loader is exhausted, at a \<^verbatim>\<open>break\<close>, or with the exception of its body.
\<close>

fun train_loop ::
  "('x, 's) env \<Rightarrow> config \<Rightarrow> nat \<Rightarrow> ('x \<times> nat list) list \<Rightarrow> 's \<Rightarrow> rat list
     \<Rightarrow> event list \<times> rat list \<times> 's \<times> py_error option" where
  "train_loop E config step [] model train_acc = ([], train_acc, model, None)"
| "train_loop E config step (batch # rest) model train_acc =
     (case train_step E config step batch model train_acc of
        (evs, train_acc', model', Raise e) \<Rightarrow> (evs, train_acc', model', Some e)
      | (evs, train_acc', model', Break) \<Rightarrow> (evs, train_acc', model', None)
      | (evs, train_acc', model', Continue) \<Rightarrow>
          (case train_loop E config (Suc step) rest model' train_acc' of
             (evs', r) \<Rightarrow> (evs @ evs', r)))"

text \<open>
  Lines 58 to 103, after the assertion: the device, the model, the dataset and its
  loader, the loss, the optimizer and the accuracy array. The \<^verbatim>\<open>if/elif/elif\<close> that
  builds the model has no \<^verbatim>\<open>else\<close>: with another model type the name \<^verbatim>\<open>model\<close> would be
  unbound at its first use, \<^verbatim>\<open>model.parameters()\<close>. The loader refuses a batch size that
  is not positive, the optimizer a negative learning rate and \<^verbatim>\<open>np.zeros\<close> a negative
  length, each with \<^verbatim>\<open>ValueError\<close>. The model classes and the dataset are assumed to
  return normally.
\<close>

definition select_device :: "('x, 's) env \<Rightarrow> config \<Rightarrow> torch_device" where
  "select_device E config =
     (let wanted_device = lower (device config)
      in if wanted_device = ''cuda'' then (if cuda_is_available E then Cuda else Cpu) else Cpu)"

definition select_model :: "config \<Rightarrow> model_class option" where
  "select_model config =
     (if model_type config = ''rnn'' then Some VanillaRNN
      else if model_type config = ''lstm'' then Some LSTM
      else if model_type config = ''rrn'' then Some RRN
      else None)"

definition train_setup ::
  "('x, 's) env \<Rightarrow> config \<Rightarrow> event list \<times> (py_error + 's \<times> rat list)" where
  "train_setup E config =
     (let dev = select_device E config;
          ev_model = (case select_model config of
                        None \<Rightarrow> []
                      | Some c \<Rightarrow> [New_model c (input_length config) (input_dim config)
                                    (num_hidden config) (num_classes config)
                                    (batch_size config) dev]);
          ev_data = [New_dataset (input_length config + 1), New_loader (batch_size config) 0]
      in if batch_size config \<le> 0 then (ev_model @ ev_data, Inl ValueError)
         else case select_model config of
                None \<Rightarrow> (ev_model @ ev_data @ [New_criterion], Inl UnboundLocalError)
              | Some c \<Rightarrow>
                  let evs = ev_model @ ev_data
                              @ [New_criterion, New_optimizer (learning_rate config)]
                  in if learning_rate config < 0 then (evs, Inl ValueError)
                     else case np_zeros (train_steps config + 1) of
                            Inl e \<Rightarrow> (evs, Inl e)
                          | Inr train_acc \<Rightarrow>
                              (evs, Inr (new_model E c (input_length config) (input_dim config)
                                           (num_hidden config) (num_classes config)
                                           (batch_size config) dev,
                                         train_acc)))"

text \<open>Lines 161 to 169: the statistics dictionary, its keys in insertion order.\<close>

definition train_stats :: "rat list \<Rightarrow> py_error + stats" where
  "train_stats train_acc =
     (case np_get train_acc (- 1) of
        Inl e \<Rightarrow> Inl e
      | Inr last_acc \<Rightarrow>
          (case np_argmax train_acc of
             Inl e \<Rightarrow> Inl e
           | Inr first_best_acc \<Rightarrow>
               (case np_get train_acc (int first_best_acc) of
                  Inl e \<Rightarrow> Inl e
                | Inr best_acc \<Rightarrow>
                    Inr [(''last acc'', PyFloat last_acc),
                         (''best acc'', PyFloat best_acc),
                         (''step best acc'', PyInt (int first_best_acc)),
                         (''num steps'', PyInt (int (length train_acc))),
                         (''accs'', PyArray train_acc)])))"

text \<open>Lines 156 to 159: what \<open>train\<close> does once the loop is left without an exception.\<close>

definition train_saves :: "config \<Rightarrow> rat list \<Rightarrow> event list" where
  "train_saves config train_acc =
     [Print_done,
      Torch_save (model_type config @ ''_model.pt''),
      Numpy_save (''train_acc_'' @ model_type config @ str_int (input_length config))
        (Floats train_acc)]"

text \<open>
  \<open>train\<close> changes its argument (the model type is lowered in place), so it returns the
  configuration with its events and its result: an exception, \<^verbatim>\<open>None\<close>, or the
  statistics.
\<close>

definition train ::
  "('x, 's) env \<Rightarrow> config \<Rightarrow> config \<times> event list \<times> (py_error + stats option)" where
  "train E config0 =
     (let ev0 = [Print_config (vars_config config0)];
          config = config0\<lparr>model_type := lower (model_type config0)\<rparr>
      in if model_type config \<notin> set [''rnn'', ''lstm'', ''rrn'']
         then (config, ev0, Inl AssertionError)
         else case train_setup E config of
                (ev1, Inl e) \<Rightarrow> (config, ev0 @ ev1, Inl e)
              | (ev1, Inr (model, train_acc)) \<Rightarrow>
                  (case train_loop E config 0
                          (batches E (input_length config + 1) (batch_size config))
                          model train_acc of
                     (ev2, train_acc', model', Some e) \<Rightarrow> (config, ev0 @ ev1 @ ev2, Inl e)
                   | (ev2, train_acc', model', None) \<Rightarrow>
                       let evs = ev0 @ ev1 @ ev2 @ train_saves config train_acc'
                       in if experiment_flag config
                          then (case train_stats train_acc' of
                                  Inl e \<Rightarrow> (config, evs, Inl e)
                                | Inr st \<Rightarrow> (config, evs, Inr (Some st)))
                          else (config, evs, Inr None)))"

subsection \<open>\<^verbatim>\<open>experiment\<close> and the entry point\<close>

text \<open>
  The sweep, \<^verbatim>\<open>experiment(config)\<close> in the source (\<open>run_experiment\<close> here). Each round sets the input length on the shared configuration, trains,
  writes every configuration entry into the dictionary \<open>train\<close> returned
  (\<^verbatim>\<open>stats[-1][key] = value\<close>; on \<^verbatim>\<open>None\<close> the item assignment raises \<^verbatim>\<open>TypeError\<close>), and
  saves all the dictionaries gathered so far. An exception of \<open>train\<close> ends the sweep.
\<close>

definition add_config :: "config \<Rightarrow> stats \<Rightarrow> stats" where
  "add_config config st = fold (\<lambda>(key, v). AList.update key v) (vars_config config) st"

fun experiment_loop ::
  "('x, 's) env \<Rightarrow> config \<Rightarrow> stats list \<Rightarrow> int list
     \<Rightarrow> config \<times> event list \<times> py_error option" where
  "experiment_loop E config stats [] = (config, [], None)"
| "experiment_loop E config stats (sl # rest) =
     (case train E (config\<lparr>input_length := sl\<rparr>) of
        (config', evs, Inl e) \<Rightarrow> (config', evs, Some e)
      | (config', evs, Inr None) \<Rightarrow> (config', evs, Some TypeError)
      | (config', evs, Inr (Some st)) \<Rightarrow>
          (let stats' = stats @ [add_config config' st];
               save = Numpy_save (''experiment_stats_500'' @ model_type config' @ str_int 500)
                        (Objects stats')
           in case experiment_loop E config' stats' rest of
                (config'', evs', r) \<Rightarrow> (config'', evs @ [save] @ evs', r)))"

definition run_experiment ::
  "('x, 's) env \<Rightarrow> config \<Rightarrow> config \<times> event list \<times> py_error option" where
  "run_experiment E config =
     (let start = 50; end' = 500; step = 50
      in experiment_loop E config [] (py_range start (end' + 1) step))"

text \<open>
  \<^verbatim>\<open>--experiment\<close> is declared with \<^verbatim>\<open>type=bool, default=True\<close>: the parser applies
  \<^verbatim>\<open>bool\<close> to the string given on the command line and takes the default when the option
  is absent. The conversion of the other options is not modelled: \<open>main\<close> takes their
  parsed values as a configuration and the raw value of \<^verbatim>\<open>--experiment\<close>, if any.
\<close>

definition parse_experiment :: "string option \<Rightarrow> bool" where
  "parse_experiment raw = (case raw of None \<Rightarrow> True | Some s \<Rightarrow> py_bool_str s)"

datatype path = Sweep | Single_run

definition main ::
  "('x, 's) env \<Rightarrow> config \<Rightarrow> string option
     \<Rightarrow> path \<times> config \<times> event list \<times> py_error option" where
  "main E parsed raw =
     (let config = parsed\<lparr>experiment_flag := parse_experiment raw\<rparr>
      in if experiment_flag config
         then (case run_experiment E config of (config', evs, r) \<Rightarrow> (Sweep, config', evs, r))
         else (case train E config of
                 (config', evs, r) \<Rightarrow>
                   (Single_run, config', evs, case r of Inl e \<Rightarrow> Some e | Inr _ \<Rightarrow> None)))"

subsection \<open>Notions used to state the properties\<close>

text \<open>
  \<open>first_largest row k\<close>: \<open>k\<close> is a position of \<open>row\<close>, no entry of \<open>row\<close> is larger than
  the one at \<open>k\<close>, and every entry before \<open>k\<close> is strictly smaller: the predicted class of a
  row of scores.
\<close>

definition first_largest :: "rat list \<Rightarrow> nat \<Rightarrow> bool" where
  "first_largest row k =
     (k < length row \<and> (\<forall>j<length row. row ! j \<le> row ! k) \<and> (\<forall>j<k. row ! j < row ! k))"

text \<open>A configuration with the defaults of the parser, except for a batch size of two.\<close>

definition cfg0 :: config where
  "cfg0 = \<lparr>model_type = ''RRN'', input_length = 10, input_dim = 1, num_classes = 10,
           num_hidden = 128, batch_size = 2, learning_rate = 1/1000, train_steps = 10000,
           max_norm = 10, device = ''cpu'', experiment_flag = True, print_every = 100\<rparr>"

text \<open>
  The events of a loop iteration.
\<close>

fun is_step_event :: "event \<Rightarrow> bool" where
  "is_step_event (Forward n) = True"
| "is_step_event (Loss n) = True"
| "is_step_event (Zero_grad n) = True"
| "is_step_event (Backward n) = True"
| "is_step_event (Clip_grad_norm n r) = True"
| "is_step_event (Optimizer_step n) = True"
| "is_step_event (Store_acc n r) = True"
| "is_step_event (Print_step n) = True"
| "is_step_event _ = False"

text \<open>
  The construction of a model, and the construction of the dataset and of its loader.
\<close>

fun is_new_model :: "event \<Rightarrow> bool" where
  "is_new_model (New_model c a b d e f g) = True"
| "is_new_model _ = False"

fun is_data_source :: "event \<Rightarrow> bool" where
  "is_data_source (New_dataset n) = True"
| "is_data_source (New_loader n w) = True"
| "is_data_source _ = False"

text \<open>
  The configuration after line 55, \<^verbatim>\<open>config.model_type = config.model_type.lower()\<close>.
\<close>

definition lowered :: "config \<Rightarrow> config" where
  "lowered config = config\<lparr>model_type := lower (model_type config)\<rparr>"

text \<open>
  Collaborators for the examples: a loader of eight batches of two examples with the
  labels 0 and 1, a model that gets one of the two right before its first update and both
  afterwards, and an optimizer whose state counts its steps.
\<close>

definition env0 :: "(unit, nat) env" where
  "env0 = \<lparr>cuda_is_available = False,
           new_model = (\<lambda>c sl d h k b dev. 0),
           batches = (\<lambda>sl b. replicate 8 ((), [0, 1])),
           forward = (\<lambda>s x. if s = 0 then [[1, 0], [1, 0]] else [[1, 0], [0, 1]]),
           criterion = (\<lambda>p t. 0),
           zero_grad = (\<lambda>s. s),
           backward = (\<lambda>s x t. s),
           clip_grad_norm = (\<lambda>n s. s),
           optimizer_step = Suc\<rparr>"

text \<open>
  A configuration with a model type the script does not know.
\<close>

definition cfg_gru :: config where
  "cfg_gru = cfg0\<lparr>model_type := ''GRU''\<rparr>"

text \<open>
  A loader that agrees with the one of \<open>env0\<close> on sequence length 11 and batch size 2
  and yields nothing otherwise.
\<close>

definition batches1 :: "int \<Rightarrow> int \<Rightarrow> (unit \<times> nat list) list" where
  "batches1 sl b = (if sl = 11 \<and> b = 2 then replicate 8 ((), [0, 1]) else [])"

text \<open>
  A loader that differs from the one of \<open>env0\<close> on sequence length 11 and batch size 2:
  there it yields a single batch, with the labels 1 and 1.
\<close>

definition batches2 :: "int \<Rightarrow> int \<Rightarrow> (unit \<times> nat list) list" where
  "batches2 sl b = (if sl = 11 \<and> b = 2 then [((), [1, 1])] else replicate 8 ((), [0, 1]))"

text \<open>
  The operations of a loop iteration on its batch: the events of the iteration other
  than the diagnostic print.
\<close>

fun is_step_op :: "event \<Rightarrow> bool" where
  "is_step_op (Forward n) = True"
| "is_step_op (Loss n) = True"
| "is_step_op (Zero_grad n) = True"
| "is_step_op (Backward n) = True"
| "is_step_op (Clip_grad_norm n r) = True"
| "is_step_op (Optimizer_step n) = True"
| "is_step_op (Store_acc n r) = True"
| "is_step_op _ = False"

text \<open>
  Each batch drawn from the loader enters the body of the loop and starts with one
  forward pass, so the batches drawn in a run are counted by its \<open>Forward\<close> events.
\<close>

fun is_forward :: "event \<Rightarrow> bool" where
  "is_forward (Forward n) = True"
| "is_forward _ = False"

definition batches_drawn :: "event list \<Rightarrow> nat" where
  "batches_drawn evs = length (filter is_forward evs)"

text \<open>
  What one iteration does to the engine: \<^verbatim>\<open>zero_grad\<close>, \<^verbatim>\<open>backward\<close>, the clipping to
  \<open>max_norm\<close> and the optimizer step, in this order; and the accuracy it computes, from
  the forward pass made before the update.
\<close>

definition engine_update :: "('x, 's) env \<Rightarrow> config \<Rightarrow> 's \<Rightarrow> 'x \<times> nat list \<Rightarrow> 's" where
  "engine_update E config model batch =
     optimizer_step E
       (clip_grad_norm E (max_norm config)
          (backward E (zero_grad E model) (fst batch) (snd batch)))"

definition batch_accuracy :: "('x, 's) env \<Rightarrow> config \<Rightarrow> 's \<Rightarrow> 'x \<times> nat list \<Rightarrow> rat" where
  "batch_accuracy E config model batch = accuracy (forward E model (fst batch)) (snd batch) config"

text \<open>
  The operations of the iteration \<open>step\<close> in the order of the loop body, and the
  operations and accuracies of a list of batches processed one after the other.
\<close>

definition step_ops :: "config \<Rightarrow> nat \<Rightarrow> rat \<Rightarrow> event list" where
  "step_ops config step acc =
     [Forward step, Loss step, Zero_grad step, Backward step,
      Clip_grad_norm step (max_norm config), Optimizer_step step, Store_acc step acc]"

fun batch_ops :: "('x, 's) env \<Rightarrow> config \<Rightarrow> nat \<Rightarrow> ('x \<times> nat list) list \<Rightarrow> 's \<Rightarrow> event list" where
  "batch_ops E config step [] model = []"
| "batch_ops E config step (batch # rest) model =
     step_ops config step (batch_accuracy E config model batch)
       @ batch_ops E config (Suc step) rest (engine_update E config model batch)"

fun batch_accs :: "('x, 's) env \<Rightarrow> config \<Rightarrow> ('x \<times> nat list) list \<Rightarrow> 's \<Rightarrow> rat list" where
  "batch_accs E config [] model = []"
| "batch_accs E config (batch # rest) model =
     batch_accuracy E config model batch
       # batch_accs E config rest (engine_update E config model batch)"

text \<open>
  The print of an iteration, and the test on the accuracy array that ends the loop.
\<close>

definition step_prints :: "config \<Rightarrow> nat \<Rightarrow> event list" where
  "step_prints config step = (if int step mod print_every config = 0 then [Print_step step] else [])"

definition leaves :: "config \<Rightarrow> rat list \<Rightarrow> nat \<Rightarrow> bool" where
  "leaves config A step =
     (int step = train_steps config
      \<or> sum_list (np_slice A (int step - 4) (int step + 1)) / 5 = 1)"

text \<open>
  The same configuration with three training steps (\<open>train_steps = 2\<close>).
\<close>

definition cfg2 :: config where
  "cfg2 = cfg0\<lparr>train_steps := 2\<rparr>"

text \<open>
  The loop as \<open>train\<close> starts it: from step 0, on the array \<^verbatim>\<open>np.zeros(train_steps + 1)\<close>.
\<close>

definition run_loop ::
  "('x, 's) env \<Rightarrow> config \<Rightarrow> ('x \<times> nat list) list \<Rightarrow> 's
     \<Rightarrow> event list \<times> rat list \<times> 's \<times> py_error option" where
  "run_loop E config bs model =
     train_loop E config 0 bs model (replicate (nat (train_steps config + 1)) 0)"

text \<open>
  The accuracy array right after the store of \<open>step\<close>, when the batches so far had
  the accuracies \<open>accs\<close>: these accuracies, then zeros up to the length
  \<open>train_steps + 1\<close>.
\<close>

definition acc_array :: "config \<Rightarrow> rat list \<Rightarrow> nat \<Rightarrow> rat list" where
  "acc_array config accs step =
     take (Suc step) accs @ replicate (nat (train_steps config) - step) 0"

text \<open>
  The same configuration with \<open>train_steps = 3\<close> and with \<open>train_steps = 6\<close>.
\<close>

definition cfg3 :: config where
  "cfg3 = cfg0\<lparr>train_steps := 3\<rparr>"

definition cfg6 :: config where
  "cfg6 = cfg0\<lparr>train_steps := 6\<rparr>"

text \<open>
  The configuration with \<open>train_steps = 6\<close> and \<open>print_every = 0\<close>.
\<close>

definition cfg_p0 :: config where
  "cfg_p0 = cfg0\<lparr>train_steps := 6, print_every := 0\<rparr>"

text \<open>
  The events that write a file.
\<close>

fun is_save :: "event \<Rightarrow> bool" where
  "is_save (Torch_save name) = True"
| "is_save (Numpy_save name payload) = True"
| "is_save _ = False"

text \<open>
  The same configuration with one training step (\<open>train_steps = 0\<close>), for the sweep.
\<close>

definition cfg_sweep :: config where
  "cfg_sweep = cfg0\<lparr>train_steps := 0\<rparr>"






section \<open>Properties\<close>

subsection \<open>The first maximum\<close>

lemma argmax_aux_scan:
  assumes "length ps = i" "bi < i" "ps ! bi = bv" "\<forall>j<i. ps ! j \<le> bv" "\<forall>j<bi. ps ! j < bv"
  shows "first_largest (ps @ xs) (argmax_aux bi bv i xs)"
  using assms
proof (induction xs arbitrary: bi bv i ps)
  case Nil
  then show ?case by (simp add: first_largest_def)
next
  case (Cons x xs)
  show ?case
  proof (cases "bv < x")
    case True
    have "first_largest ((ps @ [x]) @ xs) (argmax_aux i x (Suc i) xs)"
    proof (rule Cons.IH)
      show "length (ps @ [x]) = Suc i" using Cons.prems by simp
      show "i < Suc i" by simp
      show "(ps @ [x]) ! i = x" using Cons.prems by (simp add: nth_append)
      show "\<forall>j<Suc i. (ps @ [x]) ! j \<le> x"
        using Cons.prems True by (auto simp: nth_append less_Suc_eq intro: order_trans less_imp_le)
      show "\<forall>j<i. (ps @ [x]) ! j < x"
        using Cons.prems True by (auto simp: nth_append intro: le_less_trans)
    qed
    with True show ?thesis by simp
  next
    case False
    have "first_largest ((ps @ [x]) @ xs) (argmax_aux bi bv (Suc i) xs)"
    proof (rule Cons.IH)
      show "length (ps @ [x]) = Suc i" using Cons.prems by simp
      show "bi < Suc i" using Cons.prems by simp
      show "(ps @ [x]) ! bi = bv" using Cons.prems by (simp add: nth_append)
      show "\<forall>j<Suc i. (ps @ [x]) ! j \<le> bv"
        using Cons.prems False by (auto simp: nth_append less_Suc_eq)
      show "\<forall>j<bi. (ps @ [x]) ! j < bv"
        using Cons.prems by (auto simp: nth_append)
    qed
    with False show ?thesis by simp
  qed
qed

lemma argmax_first_largest:
  assumes "xs \<noteq> []"
  shows "first_largest xs (argmax xs)"
proof -
  obtain x rest where xs: "xs = x # rest" using assms by (cases xs) auto
  have "first_largest ([x] @ rest) (argmax_aux 0 x 1 rest)"
    by (rule argmax_aux_scan) auto
  then show ?thesis by (simp add: xs argmax_def)
qed

lemma first_largest_unique:
  assumes "first_largest xs k" "first_largest xs m"
  shows "k = m"
proof (rule ccontr)
  assume "k \<noteq> m"
  then consider "k < m" | "m < k" by linarith
  then show False
  proof cases
    case 1
    then have "xs ! k < xs ! m" using assms(2) by (simp add: first_largest_def)
    moreover have "xs ! m \<le> xs ! k" using assms by (simp add: first_largest_def)
    ultimately show False by simp
  next
    case 2
    then have "xs ! m < xs ! k" using assms(1) by (simp add: first_largest_def)
    moreover have "xs ! k \<le> xs ! m" using assms by (simp add: first_largest_def)
    ultimately show False by simp
  qed
qed

lemma argmax_eq_iff:
  assumes "xs \<noteq> []"
  shows "argmax xs = k \<longleftrightarrow> first_largest xs k"
  using argmax_first_largest[OF assms] first_largest_unique by blast

lemma count_matches:
  assumes "length predictions = length label" "\<forall>p\<in>set predictions. p \<noteq> []"
  shows "length (filter (\<lambda>(p, l). argmax p = l) (zip predictions label))
           = card {i. i < length label \<and> first_largest (predictions ! i) (label ! i)}"
proof -
  have "length (filter (\<lambda>(p, l). argmax p = l) (zip predictions label))
          = card {i. i < length (zip predictions label)
                    \<and> (\<lambda>(p, l). argmax p = l) (zip predictions label ! i)}"
    by (rule length_filter_conv_card)
  also have "{i. i < length (zip predictions label)
                    \<and> (\<lambda>(p, l). argmax p = l) (zip predictions label ! i)}
           = {i. i < length label \<and> first_largest (predictions ! i) (label ! i)}"
  proof -
    have "argmax (predictions ! i) = label ! i \<longleftrightarrow> first_largest (predictions ! i) (label ! i)"
      if "i < length label" for i
    proof -
      have "predictions ! i \<in> set predictions" using that assms(1) by simp
      then have "predictions ! i \<noteq> []" using assms(2) by blast
      then show ?thesis by (rule argmax_eq_iff)
    qed
    then show ?thesis using assms(1) by (intro Collect_cong conj_cong) simp_all
  qed
  finally show ?thesis .
qed

lemma count_matches_le:
  "length (filter (\<lambda>(p, l). argmax p = l) (zip predictions label)) \<le> length label"
proof -
  have "length (filter (\<lambda>(p, l). argmax p = l) (zip predictions label))
          \<le> length (zip predictions label)"
    by (rule length_filter_le)
  then show ?thesis by simp
qed

subsection \<open>Accuracy\<close>

text \<open>
  C5. On a batch with as many non-empty score rows as labels and a positive batch size,
  \<open>accuracy\<close> is the number of examples whose predicted class (the first largest score of
  the row) is the label, divided by \<open>batch_size\<close>; when the batch holds exactly
  \<open>batch_size\<close> examples it lies between 0 and 1.
\<close>

theorem accuracy_is_fraction_correct:
  assumes "length predictions = length label"
    and "\<forall>p\<in>set predictions. p \<noteq> []"
    and "0 < batch_size config"
  shows "accuracy predictions label config
           = of_nat (card {i. i < length label \<and> first_largest (predictions ! i) (label ! i)})
               / of_int (batch_size config)
         \<and> (int (length label) = batch_size config \<longrightarrow>
              0 \<le> accuracy predictions label config \<and> accuracy predictions label config \<le> 1)"
proof (intro conjI impI)
  show "accuracy predictions label config
           = of_nat (card {i. i < length label \<and> first_largest (predictions ! i) (label ! i)})
               / of_int (batch_size config)"
    unfolding accuracy_def using count_matches[OF assms(1,2)] by simp
next
  assume eq: "int (length label) = batch_size config"
  let ?c = "length (filter (\<lambda>(p, l). argmax p = l) (zip predictions label))"
  have pos: "(0::rat) < of_int (batch_size config)" using assms(3) by simp
  show "0 \<le> accuracy predictions label config"
    unfolding accuracy_def using pos by simp
  have "(of_nat ?c :: rat) \<le> of_nat (length label)"
    using count_matches_le[of predictions label] by (simp only: of_nat_le_iff)
  also have "(of_nat (length label) :: rat) = of_int (batch_size config)"
    using eq by (metis of_int_of_nat_eq)
  finally show "accuracy predictions label config \<le> 1"
    unfolding accuracy_def using pos by (simp add: divide_le_eq_1)
qed

theorem accuracy_is_fraction_correct_witness:
  "accuracy [[1, 3, 2], [5, 4, 0]] [1, 1] cfg0
     = of_nat (card {i. i < length [1, 1::nat]
                      \<and> first_largest ([[1, 3, 2], [5, 4, 0]] ! i) ([1, 1] ! i)}) / of_int (batch_size cfg0)
   \<and> 0 \<le> accuracy [[1, 3, 2], [5, 4, 0]] [1, 1] cfg0
   \<and> accuracy [[1, 3, 2], [5, 4, 0]] [1, 1] cfg0 \<le> 1
   \<and> accuracy [[1, 3, 2], [5, 4, 0]] [1, 1] cfg0 = 1 / 2"
proof -
  have h1: "length [[1, 3, 2], [5, 4, 0::rat]] = length [1, 1::nat]" by simp
  have h2: "\<forall>p\<in>set [[1, 3, 2], [5, 4, 0::rat]]. p \<noteq> []" by simp
  have h3: "0 < batch_size cfg0" by (simp add: cfg0_def)
  have h4: "int (length [1, 1::nat]) = batch_size cfg0" by (simp add: cfg0_def)
  have v: "accuracy [[1, 3, 2], [5, 4, 0]] [1, 1] cfg0 = 1 / 2"
    by (simp add: accuracy_def argmax_def cfg0_def)
  show ?thesis
    using accuracy_is_fraction_correct[OF h1 h2 h3] h4 v by simp
qed

subsection \<open>The structure of a run\<close>

text \<open>
  The three ways through the body of the loop: the store raises, the print raises,
  or the step completes and decides between \<^verbatim>\<open>break\<close> and the next batch.
\<close>

lemma train_step_cases:
  obtains (store_fails) e where
      "np_set train_acc (int step) (accuracy (forward E model (fst batch)) (snd batch) config) = Inl e"
      "train_step E config step batch model train_acc =
         ([Forward step, Loss step, Zero_grad step, Backward step,
           Clip_grad_norm step (max_norm config), Optimizer_step step,
           Store_acc step (accuracy (forward E model (fst batch)) (snd batch) config)],
          train_acc,
          optimizer_step E (clip_grad_norm E (max_norm config)
            (backward E (zero_grad E model) (fst batch) (snd batch))),
          Raise e)"
  | (print_fails) train_acc' where
      "np_set train_acc (int step) (accuracy (forward E model (fst batch)) (snd batch) config) = Inr train_acc'"
      "print_every config = 0"
      "train_step E config step batch model train_acc =
         ([Forward step, Loss step, Zero_grad step, Backward step,
           Clip_grad_norm step (max_norm config), Optimizer_step step,
           Store_acc step (accuracy (forward E model (fst batch)) (snd batch) config)],
          train_acc',
          optimizer_step E (clip_grad_norm E (max_norm config)
            (backward E (zero_grad E model) (fst batch) (snd batch))),
          Raise ZeroDivisionError)"
  | (stored) train_acc' where
      "np_set train_acc (int step) (accuracy (forward E model (fst batch)) (snd batch) config) = Inr train_acc'"
      "print_every config \<noteq> 0"
      "train_step E config step batch model train_acc =
         ([Forward step, Loss step, Zero_grad step, Backward step,
           Clip_grad_norm step (max_norm config), Optimizer_step step,
           Store_acc step (accuracy (forward E model (fst batch)) (snd batch) config)]
           @ (if int step mod print_every config = 0 then [Print_step step] else []),
          train_acc',
          optimizer_step E (clip_grad_norm E (max_norm config)
            (backward E (zero_grad E model) (fst batch) (snd batch))),
          if int step = train_steps config
             \<or> sum_list (np_slice train_acc' (int step - 4) (int step + 1)) / 5 = 1
          then Break else Continue)"
proof (cases "np_set train_acc (int step) (accuracy (forward E model (fst batch)) (snd batch) config)")
  case (Inl e)
  then show ?thesis using store_fails by (simp add: train_step_def Let_def)
next
  case (Inr a)
  then show ?thesis using print_fails stored by (cases "print_every config = 0") (simp_all add: train_step_def Let_def)
qed

lemma train_step_events_step:
  "\<forall>e\<in>set (fst (train_step E config step batch model train_acc)). is_step_event e"
  by (cases rule: train_step_cases[of train_acc step E model batch config]) simp_all

lemma train_step_error:
  "snd (snd (snd (train_step E config step batch model train_acc))) = Raise e
     \<Longrightarrow> e = IndexError \<or> e = ZeroDivisionError"
  by (cases rule: train_step_cases[of train_acc step E model batch config])
     (auto simp: np_set_def split: option.splits if_splits)

lemma train_loop_events_step:
  "\<forall>e\<in>set (fst (train_loop E config step bs model train_acc)). is_step_event e"
proof (induction bs arbitrary: step model train_acc)
  case Nil
  then show ?case by simp
next
  case (Cons b bs)
  obtain evs acc' m' c where ts: "train_step E config step b model train_acc = (evs, acc', m', c)"
    by (cases "train_step E config step b model train_acc") auto
  have evs: "\<forall>e\<in>set evs. is_step_event e"
    using train_step_events_step[of E config step b model train_acc] ts by simp
  show ?case
  proof (cases c)
    case Continue
    obtain evs' r where tl: "train_loop E config (Suc step) bs m' acc' = (evs', r)"
      by (cases "train_loop E config (Suc step) bs m' acc'") auto
    have "\<forall>e\<in>set evs'. is_step_event e" using Cons.IH[of "Suc step" m' acc'] tl by simp
    then show ?thesis using ts Continue tl evs by auto
  next
    case Break
    then show ?thesis using ts evs by simp
  next
    case (Raise e)
    then show ?thesis using ts evs by simp
  qed
qed

lemma train_loop_error:
  "snd (snd (snd (train_loop E config step bs model train_acc))) = Some e
     \<Longrightarrow> e = IndexError \<or> e = ZeroDivisionError"
proof (induction bs arbitrary: step model train_acc)
  case Nil
  then show ?case by simp
next
  case (Cons b bs)
  obtain evs acc' m' c where ts: "train_step E config step b model train_acc = (evs, acc', m', c)"
    by (cases "train_step E config step b model train_acc") auto
  show ?case
  proof (cases c)
    case Continue
    obtain evs' a'' m'' r where tl: "train_loop E config (Suc step) bs m' acc' = (evs', a'', m'', r)"
      by (cases "train_loop E config (Suc step) bs m' acc'") auto
    have "r = Some e" using Cons.prems ts Continue tl by simp
    then show ?thesis using Cons.IH[of "Suc step" m' acc'] tl by simp
  next
    case Break
    then show ?thesis using Cons.prems ts by simp
  next
    case (Raise e')
    then have "e' = e" using Cons.prems ts by simp
    then show ?thesis using train_step_error[of E config step b model train_acc e] ts Raise by simp
  qed
qed

lemma train_invalid:
  assumes "lower (model_type config) \<notin> set [''rnn'', ''lstm'', ''rrn'']"
  shows "train E config = (lowered config, [Print_config (vars_config config)], Inl AssertionError)"
  using assms by (simp add: train_def lowered_def Let_def)

text \<open>
  The four ways through \<open>train\<close>: the assertion fails, the set-up raises, the loop
  raises, or the loop is left and the artifacts are saved.
\<close>

lemma train_cases:
  obtains (assert_fails)
      "lower (model_type config) \<notin> set [''rnn'', ''lstm'', ''rrn'']"
      "train E config = (lowered config, [Print_config (vars_config config)], Inl AssertionError)"
  | (setup_raises) ev1 e where
      "lower (model_type config) \<in> set [''rnn'', ''lstm'', ''rrn'']"
      "train_setup E (lowered config) = (ev1, Inl e)"
      "train E config = (lowered config, [Print_config (vars_config config)] @ ev1, Inl e)"
  | (loop_raises) ev1 model train_acc ev2 train_acc' model' e where
      "lower (model_type config) \<in> set [''rnn'', ''lstm'', ''rrn'']"
      "train_setup E (lowered config) = (ev1, Inr (model, train_acc))"
      "train_loop E (lowered config) 0
         (batches E (input_length config + 1) (batch_size config)) model train_acc
         = (ev2, train_acc', model', Some e)"
      "train E config = (lowered config, [Print_config (vars_config config)] @ ev1 @ ev2, Inl e)"
  | (loop_done) ev1 model train_acc ev2 train_acc' model' where
      "lower (model_type config) \<in> set [''rnn'', ''lstm'', ''rrn'']"
      "train_setup E (lowered config) = (ev1, Inr (model, train_acc))"
      "train_loop E (lowered config) 0
         (batches E (input_length config + 1) (batch_size config)) model train_acc
         = (ev2, train_acc', model', None)"
      "train E config =
         (lowered config,
          [Print_config (vars_config config)] @ ev1 @ ev2 @ train_saves (lowered config) train_acc',
          if experiment_flag config
          then (case train_stats train_acc' of Inl e \<Rightarrow> Inl e | Inr st \<Rightarrow> Inr (Some st))
          else Inr None)"
proof (cases "lower (model_type config) \<in> set [''rnn'', ''lstm'', ''rrn'']")
  case False
  then show ?thesis using assert_fails train_invalid[of config E] by blast
next
  case valid: True
  have v: "model_type (lowered config) \<in> set [''rnn'', ''lstm'', ''rrn'']"
    using valid by (simp add: lowered_def)
  obtain ev1 r1 where s: "train_setup E (lowered config) = (ev1, r1)"
    by (cases "train_setup E (lowered config)") auto
  show ?thesis
  proof (cases r1)
    case (Inl e)
    have "train E config = (lowered config, [Print_config (vars_config config)] @ ev1, Inl e)"
      using v s Inl unfolding train_def lowered_def Let_def by simp
    then show ?thesis using setup_raises valid s Inl by blast
  next
    case (Inr p)
    obtain model train_acc where p: "p = (model, train_acc)" by (cases p) auto
    obtain ev2 train_acc' model' r2 where
      l: "train_loop E (lowered config) 0
            (batches E (input_length config + 1) (batch_size config)) model train_acc
            = (ev2, train_acc', model', r2)"
      by (cases "train_loop E (lowered config) 0
            (batches E (input_length config + 1) (batch_size config)) model train_acc") auto
    show ?thesis
    proof (cases r2)
      case None
      have "train E config =
         (lowered config,
          [Print_config (vars_config config)] @ ev1 @ ev2 @ train_saves (lowered config) train_acc',
          if experiment_flag config
          then (case train_stats train_acc' of Inl e \<Rightarrow> Inl e | Inr st \<Rightarrow> Inr (Some st))
          else Inr None)"
        using v s Inr p l None unfolding train_def lowered_def Let_def
        by (simp split: sum.splits)
      then show ?thesis using loop_done valid s Inr p l None by blast
    next
      case (Some e)
      have "train E config = (lowered config, [Print_config (vars_config config)] @ ev1 @ ev2, Inl e)"
        using v s Inr p l Some unfolding train_def lowered_def Let_def by simp
      then show ?thesis using loop_raises valid s Inr p l Some by blast
    qed
  qed
qed

subsection \<open>The assertion and the model\<close>

lemma train_setup_error:
  "snd (train_setup E config) = Inl e \<Longrightarrow> e = ValueError \<or> e = UnboundLocalError"
  by (auto simp: train_setup_def Let_def np_zeros_def split: option.splits if_splits)

lemma train_stats_error:
  "train_stats a = Inl e \<Longrightarrow> e = IndexError \<or> e = ValueError"
  by (auto simp: train_stats_def np_get_def np_argmax_def split: option.splits if_splits sum.splits)

text \<open>
  C8. When the lowered model type is none of \<open>rnn\<close>, \<open>lstm\<close>, \<open>rrn\<close>, \<open>train\<close> raises
  \<^verbatim>\<open>AssertionError\<close> having printed the configuration and nothing else: no model,
  dataset, loader or optimizer is built and no step runs. When it is one of the three,
  \<open>train\<close> never ends with \<^verbatim>\<open>AssertionError\<close>.
\<close>

theorem train_assertion_guard:
  "(lower (model_type config) \<notin> set [''rnn'', ''lstm'', ''rrn''] \<longrightarrow>
      train E config
        = (config\<lparr>model_type := lower (model_type config)\<rparr>,
           [Print_config (vars_config config)], Inl AssertionError))
   \<and> (lower (model_type config) \<in> set [''rnn'', ''lstm'', ''rrn''] \<longrightarrow>
        snd (snd (train E config)) \<noteq> Inl AssertionError)"
proof (intro conjI impI)
  assume "lower (model_type config) \<notin> set [''rnn'', ''lstm'', ''rrn'']"
  then show "train E config
        = (config\<lparr>model_type := lower (model_type config)\<rparr>,
           [Print_config (vars_config config)], Inl AssertionError)"
    using train_invalid[of config E] by (simp add: lowered_def)
next
  assume valid: "lower (model_type config) \<in> set [''rnn'', ''lstm'', ''rrn'']"
  show "snd (snd (train E config)) \<noteq> Inl AssertionError"
  proof (cases rule: train_cases[where config = config and E = E])
    case assert_fails
    then show ?thesis using valid by simp
  next
    case (setup_raises ev1 e)
    then show ?thesis using train_setup_error[of E "lowered config" e] by auto
  next
    case (loop_raises ev1 model train_acc ev2 train_acc' model' e)
    have "snd (snd (snd (train_loop E (lowered config) 0
             (batches E (input_length config + 1) (batch_size config)) model train_acc)))
           = Some e"
      by (simp add: loop_raises(3))
    then have "e = IndexError \<or> e = ZeroDivisionError"
      by (rule train_loop_error)
    then show ?thesis using loop_raises(4) by auto
  next
    case (loop_done ev1 model train_acc ev2 train_acc' model')
    then show ?thesis
      using train_stats_error[of train_acc'] by (auto split: sum.splits)
  qed
qed

theorem train_assertion_guard_witness:
  "lower (model_type cfg_gru) \<notin> set [''rnn'', ''lstm'', ''rrn'']
   \<and> train env0 cfg_gru
       = (cfg_gru\<lparr>model_type := ''gru''\<rparr>, [Print_config (vars_config cfg_gru)], Inl AssertionError)
   \<and> lower (model_type cfg0) \<in> set [''rnn'', ''lstm'', ''rrn'']
   \<and> snd (snd (train env0 cfg0)) \<noteq> Inl AssertionError"
proof -
  have g: "lower (model_type cfg_gru) = ''gru''"
    by (simp add: cfg_gru_def cfg0_def lower_def lower_char_def)
  have r: "lower (model_type cfg0) = ''rrn''"
    by (simp add: cfg0_def lower_def lower_char_def)
  show ?thesis
    using train_assertion_guard[of cfg_gru env0] train_assertion_guard[of cfg0 env0]
    by (simp add: g r)
qed

lemma filter_step_events:
  assumes "\<forall>e\<in>set evs. is_step_event e" "\<And>e. P e \<Longrightarrow> \<not> is_step_event e"
  shows "filter P evs = []"
  using assms by (auto simp: filter_empty_conv)

lemma select_model_lowered:
  "select_model (lowered config) =
     (if lower (model_type config) = ''rnn'' then Some VanillaRNN
      else if lower (model_type config) = ''lstm'' then Some LSTM
      else if lower (model_type config) = ''rrn'' then Some RRN
      else None)"
  by (simp add: select_model_def lowered_def)

lemma train_setup_events:
  assumes "select_model config = Some c"
  shows "\<exists>rest. fst (train_setup E config)
           = [New_model c (input_length config) (input_dim config) (num_hidden config)
                (num_classes config) (batch_size config) (select_device E config),
              New_dataset (input_length config + 1), New_loader (batch_size config) 0] @ rest
           \<and> set rest \<subseteq> {New_criterion, New_optimizer (learning_rate config)}"
  using assms by (auto simp: train_setup_def Let_def split: sum.splits)

lemma is_new_model_not_step: "is_new_model e \<Longrightarrow> \<not> is_step_event e"
  by (cases e) simp_all

lemma is_data_source_not_step: "is_data_source e \<Longrightarrow> \<not> is_step_event e"
  by (cases e) simp_all

lemma train_saves_filters:
  "filter is_new_model (train_saves config a) = []"
  "filter is_data_source (train_saves config a) = []"
  by (simp_all add: train_saves_def)

lemma train_events_cases:
  assumes valid: "lower (model_type config) \<in> set [''rnn'', ''lstm'', ''rrn'']"
  obtains c rest ev2 tl where
    "select_model (lowered config) = Some c"
    "fst (snd (train E config)) =
       [Print_config (vars_config config),
        New_model c (input_length config) (input_dim config) (num_hidden config)
          (num_classes config) (batch_size config) (select_device E config),
        New_dataset (input_length config + 1), New_loader (batch_size config) 0]
       @ rest @ ev2 @ tl"
    "set rest \<subseteq> {New_criterion, New_optimizer (learning_rate config)}"
    "\<forall>e\<in>set ev2. is_step_event e"
    "tl = [] \<or> (\<exists>a. tl = train_saves (lowered config) a)"
proof -
  obtain c where c: "select_model (lowered config) = Some c"
    using valid by (auto simp: select_model_lowered)
  obtain rest where rest:
    "fst (train_setup E (lowered config))
       = [New_model c (input_length config) (input_dim config) (num_hidden config)
            (num_classes config) (batch_size config) (select_device E config),
          New_dataset (input_length config + 1), New_loader (batch_size config) 0] @ rest"
    "set rest \<subseteq> {New_criterion, New_optimizer (learning_rate config)}"
    using train_setup_events[OF c, of E] by (auto simp: lowered_def select_device_def)
  show ?thesis
  proof (cases rule: train_cases[where config = config and E = E])
    case assert_fails
    then show ?thesis using valid by simp
  next
    case (setup_raises ev1 e)
    then show ?thesis using that[of c rest "[]" "[]"] c rest by simp
  next
    case (loop_raises ev1 model train_acc ev2 train_acc' model' e)
    have "\<forall>e\<in>set (fst (train_loop E (lowered config) 0
              (batches E (input_length config + 1) (batch_size config)) model train_acc)).
            is_step_event e"
      by (rule train_loop_events_step)
    then have "\<forall>e\<in>set ev2. is_step_event e"
      by (simp add: loop_raises(3))
    then show ?thesis using that[of c rest ev2 "[]"] c rest loop_raises by simp
  next
    case (loop_done ev1 model train_acc ev2 train_acc' model')
    have "\<forall>e\<in>set (fst (train_loop E (lowered config) 0
              (batches E (input_length config + 1) (batch_size config)) model train_acc)).
            is_step_event e"
      by (rule train_loop_events_step)
    then have "\<forall>e\<in>set ev2. is_step_event e"
      by (simp add: loop_done(3))
    then show ?thesis
      using that[of c rest ev2 "train_saves (lowered config) train_acc'"] c rest loop_done
      by auto
  qed
qed

text \<open>
  C2. With a lowered model type among \<open>rnn\<close>, \<open>lstm\<close>, \<open>rrn\<close>, a run of \<open>train\<close> builds
  exactly one model: \<open>VanillaRNN\<close>, \<open>LSTM\<close> or \<open>RRN\<close> respectively, in all three cases
  with \<open>seq_length = input_length\<close>, \<open>input_dim\<close>, \<open>num_hidden\<close>, \<open>num_classes\<close>,
  \<open>batch_size\<close> and the selected device (\<open>cuda\<close> only when asked for and available).
\<close>

theorem train_builds_one_model:
  assumes "lower (model_type config) \<in> set [''rnn'', ''lstm'', ''rrn'']"
  shows "filter is_new_model (fst (snd (train E config)))
           = [New_model
                (if lower (model_type config) = ''rnn'' then VanillaRNN
                 else if lower (model_type config) = ''lstm'' then LSTM else RRN)
                (input_length config) (input_dim config) (num_hidden config)
                (num_classes config) (batch_size config)
                (if lower (device config) = ''cuda'' \<and> cuda_is_available E then Cuda else Cpu)]"
proof -
  obtain c rest ev2 tl where h:
    "select_model (lowered config) = Some c"
    "fst (snd (train E config)) =
       [Print_config (vars_config config),
        New_model c (input_length config) (input_dim config) (num_hidden config)
          (num_classes config) (batch_size config) (select_device E config),
        New_dataset (input_length config + 1), New_loader (batch_size config) 0]
       @ rest @ ev2 @ tl"
    "set rest \<subseteq> {New_criterion, New_optimizer (learning_rate config)}"
    "\<forall>e\<in>set ev2. is_step_event e"
    "tl = [] \<or> (\<exists>a. tl = train_saves (lowered config) a)"
    using train_events_cases[OF assms, of E] by blast
  have r: "filter is_new_model rest = []"
    using h(3) by (auto simp: filter_empty_conv)
  have e2: "filter is_new_model ev2 = []"
    using filter_step_events[OF h(4)] is_new_model_not_step by blast
  have t: "filter is_new_model tl = []"
    using h(5) train_saves_filters(1) by auto
  have c: "c = (if lower (model_type config) = ''rnn'' then VanillaRNN
                 else if lower (model_type config) = ''lstm'' then LSTM else RRN)"
    using h(1) assms by (auto simp: select_model_lowered split: if_splits)
  have d: "select_device E config
             = (if lower (device config) = ''cuda'' \<and> cuda_is_available E then Cuda else Cpu)"
    by (simp add: select_device_def Let_def)
  show ?thesis
    unfolding h(2) using r e2 t by (simp add: c d)
qed

theorem train_builds_one_model_witness:
  "lower (model_type cfg0) \<in> set [''rnn'', ''lstm'', ''rrn'']
   \<and> filter is_new_model (fst (snd (train env0 cfg0))) = [New_model RRN 10 1 128 10 2 Cpu]"
proof -
  have r: "lower (model_type cfg0) = ''rrn''"
    by (simp add: cfg0_def lower_def lower_char_def)
  have v: "lower (model_type cfg0) \<in> set [''rnn'', ''lstm'', ''rrn'']"
    by (simp add: r)
  have d: "lower (device cfg0) = ''cpu''"
    by (simp add: cfg0_def lower_def lower_char_def)
  show ?thesis
    using train_builds_one_model[OF v, of env0] v by (simp add: r d) (simp add: cfg0_def)
qed

subsection \<open>The dataset and its loader\<close>

lemma train_step_batches_irrelevant:
  "train_step (E\<lparr>batches := b\<rparr>) config step batch model train_acc
     = train_step E config step batch model train_acc"
  by (simp add: train_step_def)

lemma train_loop_batches_irrelevant:
  "train_loop (E\<lparr>batches := b\<rparr>) config step bs model train_acc
     = train_loop E config step bs model train_acc"
  by (induction bs arbitrary: step model train_acc)
     (simp_all add: train_step_batches_irrelevant)

lemma train_setup_batches_irrelevant:
  "train_setup (E\<lparr>batches := b\<rparr>) config = train_setup E config"
  by (simp add: train_setup_def select_device_def Let_def split: option.splits sum.splits)

subsection \<open>The loop, one iteration at a time\<close>

text \<open>
  The body of the loop, restated with these notions.
\<close>

lemma train_step_shape:
  obtains (store_fails) e where
      "np_set train_acc (int step) (batch_accuracy E config model batch) = Inl e"
      "train_step E config step batch model train_acc =
         (step_ops config step (batch_accuracy E config model batch), train_acc,
          engine_update E config model batch, Raise e)"
  | (print_fails) train_acc' where
      "np_set train_acc (int step) (batch_accuracy E config model batch) = Inr train_acc'"
      "print_every config = 0"
      "train_step E config step batch model train_acc =
         (step_ops config step (batch_accuracy E config model batch), train_acc',
          engine_update E config model batch, Raise ZeroDivisionError)"
  | (stored) train_acc' where
      "np_set train_acc (int step) (batch_accuracy E config model batch) = Inr train_acc'"
      "print_every config \<noteq> 0"
      "train_step E config step batch model train_acc =
         (step_ops config step (batch_accuracy E config model batch)
            @ (if int step mod print_every config = 0 then [Print_step step] else []),
          train_acc', engine_update E config model batch,
          if int step = train_steps config
             \<or> sum_list (np_slice train_acc' (int step - 4) (int step + 1)) / 5 = 1
          then Break else Continue)"
  unfolding step_ops_def batch_accuracy_def engine_update_def
  by (rule train_step_cases[of train_acc step E model batch config]) blast+

lemma step_ops_filters:
  "filter is_step_op (step_ops config step a) = step_ops config step a"
  "filter is_forward (step_ops config step a) = [Forward step]"
  by (simp_all add: step_ops_def)

lemma batches_drawn_simps:
  "batches_drawn [] = 0"
  "batches_drawn (step_ops config step a) = 1"
  "batches_drawn [Print_step step] = 0"
  "batches_drawn (xs @ ys) = batches_drawn xs + batches_drawn ys"
  by (simp_all add: batches_drawn_def step_ops_filters)

lemma np_set_Inr:
  "np_set A (int step) a = Inr A' \<longleftrightarrow> step < length A \<and> A' = A[step := a]"
  by (auto simp: np_set_def np_index_def split: if_splits)

lemma np_set_Inl:
  "np_set A (int step) a = Inl e \<longleftrightarrow> length A \<le> step \<and> e = IndexError"
  by (auto simp: np_set_def np_index_def split: if_splits)

lemma train_loop_Nil:
  "train_loop E config step [] model A = ([], A, model, None)"
  by simp

lemma train_loop_store_fails:
  assumes "length A \<le> step"
  shows "train_loop E config step (b # bs) model A
           = (step_ops config step (batch_accuracy E config model b), A,
              engine_update E config model b, Some IndexError)"
proof (cases rule: train_step_shape[of A step E config model b])
  case (store_fails e)
  then show ?thesis by (simp add: np_set_Inl)
next
  case (print_fails A')
  then show ?thesis using assms by (simp add: np_set_Inr)
next
  case (stored A')
  then show ?thesis using assms by (simp add: np_set_Inr)
qed

lemma train_loop_print_fails:
  assumes "step < length A" "print_every config = 0"
  shows "train_loop E config step (b # bs) model A
           = (step_ops config step (batch_accuracy E config model b),
              A[step := batch_accuracy E config model b],
              engine_update E config model b, Some ZeroDivisionError)"
proof (cases rule: train_step_shape[of A step E config model b])
  case (store_fails e)
  then show ?thesis using assms by (simp add: np_set_Inl)
next
  case (print_fails A')
  then show ?thesis by (simp add: np_set_Inr)
next
  case (stored A')
  then show ?thesis using assms by simp
qed

lemma train_loop_break:
  assumes "step < length A" "print_every config \<noteq> 0"
    "leaves config (A[step := batch_accuracy E config model b]) step"
  shows "train_loop E config step (b # bs) model A
           = (step_ops config step (batch_accuracy E config model b) @ step_prints config step,
              A[step := batch_accuracy E config model b],
              engine_update E config model b, None)"
proof (cases rule: train_step_shape[of A step E config model b])
  case (store_fails e)
  then show ?thesis using assms by (simp add: np_set_Inl)
next
  case (print_fails A')
  then show ?thesis using assms by simp
next
  case (stored A')
  then have "A' = A[step := batch_accuracy E config model b]" by (simp add: np_set_Inr)
  then show ?thesis using stored(3) assms(3) by (simp add: leaves_def step_prints_def)
qed

lemma train_loop_continue:
  assumes "step < length A" "print_every config \<noteq> 0"
    "\<not> leaves config (A[step := batch_accuracy E config model b]) step"
  shows "train_loop E config step (b # bs) model A
           = (case train_loop E config (Suc step) bs (engine_update E config model b)
                     (A[step := batch_accuracy E config model b]) of
                (evs', r) \<Rightarrow>
                  ((step_ops config step (batch_accuracy E config model b)
                      @ step_prints config step) @ evs', r))"
proof (cases rule: train_step_shape[of A step E config model b])
  case (store_fails e)
  then show ?thesis using assms by (simp add: np_set_Inl)
next
  case (print_fails A')
  then show ?thesis using assms by simp
next
  case (stored A')
  then have "A' = A[step := batch_accuracy E config model b]" by (simp add: np_set_Inr)
  then show ?thesis using stored(3) assms(3) by (simp add: leaves_def step_prints_def)
qed

lemma train_loop_cases:
  obtains (store_fails)
      "length A \<le> step"
      "train_loop E config step (b # bs) model A
           = (step_ops config step (batch_accuracy E config model b), A,
              engine_update E config model b, Some IndexError)"
  | (print_fails)
      "step < length A" "print_every config = 0"
      "train_loop E config step (b # bs) model A
           = (step_ops config step (batch_accuracy E config model b),
              A[step := batch_accuracy E config model b],
              engine_update E config model b, Some ZeroDivisionError)"
  | (break)
      "step < length A" "print_every config \<noteq> 0"
      "leaves config (A[step := batch_accuracy E config model b]) step"
      "train_loop E config step (b # bs) model A
           = (step_ops config step (batch_accuracy E config model b) @ step_prints config step,
              A[step := batch_accuracy E config model b],
              engine_update E config model b, None)"
  | (continue) evs' A' model' r where
      "step < length A" "print_every config \<noteq> 0"
      "\<not> leaves config (A[step := batch_accuracy E config model b]) step"
      "train_loop E config (Suc step) bs (engine_update E config model b)
                     (A[step := batch_accuracy E config model b]) = (evs', A', model', r)"
      "train_loop E config step (b # bs) model A
           = ((step_ops config step (batch_accuracy E config model b)
                 @ step_prints config step) @ evs', A', model', r)"
proof (cases "step < length A")
  case False
  then have le: "length A \<le> step" by simp
  show ?thesis by (rule store_fails[OF le train_loop_store_fails[OF le]])
next
  case lt: True
  show ?thesis
  proof (cases "print_every config = 0")
    case True
    show ?thesis by (rule print_fails[OF lt True train_loop_print_fails[OF lt True]])
  next
    case pe: False
    show ?thesis
    proof (cases "leaves config (A[step := batch_accuracy E config model b]) step")
      case True
      show ?thesis by (rule break[OF lt pe True train_loop_break[OF lt pe True]])
    next
      case False
      obtain evs' A' model' r where
        r: "train_loop E config (Suc step) bs (engine_update E config model b)
                     (A[step := batch_accuracy E config model b]) = (evs', A', model', r)"
        by (cases "train_loop E config (Suc step) bs (engine_update E config model b)
                     (A[step := batch_accuracy E config model b])") auto
      have "train_loop E config step (b # bs) model A
           = ((step_ops config step (batch_accuracy E config model b)
                 @ step_prints config step) @ evs', A', model', r)"
        using train_loop_continue[OF lt pe False, of bs] r by simp
      then show ?thesis by (rule continue[OF lt pe False r])
    qed
  qed
qed

lemma step_prints_filters:
  "filter is_step_op (step_prints config step) = []"
  "batches_drawn (step_prints config step) = 0"
  by (simp_all add: step_prints_def batches_drawn_def)

lemma train_loop_ops:
  "filter is_step_op (fst (train_loop E config step bs model A))
     = batch_ops E config step
         (take (batches_drawn (fst (train_loop E config step bs model A))) bs) model"
proof (induction bs arbitrary: step model A)
  case Nil
  then show ?case by (simp add: batches_drawn_simps)
next
  case (Cons b bs)
  show ?case
  proof (cases rule: train_loop_cases[of A step E config b bs model])
    case store_fails
    then show ?thesis by (simp add: batches_drawn_simps step_ops_filters)
  next
    case print_fails
    then show ?thesis by (simp add: batches_drawn_simps step_ops_filters)
  next
    case break
    then show ?thesis
      by (simp add: batches_drawn_simps step_ops_filters step_prints_filters)
  next
    case (continue evs' A' model' r)
    have "filter is_step_op evs'
            = batch_ops E config (Suc step) (take (batches_drawn evs') bs)
                (engine_update E config model b)"
      using Cons.IH[of "Suc step" "engine_update E config model b"
                       "A[step := batch_accuracy E config model b]"] continue(4)
      by simp
    then show ?thesis using continue(5)
      by (simp add: batches_drawn_simps step_ops_filters step_prints_filters)
  qed
qed

lemma train_loop_drawn_le:
  "batches_drawn (fst (train_loop E config step bs model A)) \<le> length bs"
proof (induction bs arbitrary: step model A)
  case Nil
  then show ?case by (simp add: batches_drawn_simps)
next
  case (Cons b bs)
  show ?case
  proof (cases rule: train_loop_cases[of A step E config b bs model])
    case (continue evs' A' model' r)
    have "batches_drawn evs' \<le> length bs"
      using Cons.IH[of "Suc step" "engine_update E config model b"
                       "A[step := batch_accuracy E config model b]"] continue(4)
      by simp
    then show ?thesis using continue(5)
      by (simp add: batches_drawn_simps step_prints_filters)
  qed (simp_all add: batches_drawn_simps step_prints_filters)
qed

lemma train_loop_array:
  "length (fst (snd (train_loop E config step bs model A))) = length A
   \<and> (\<forall>j. j < step \<or> step + batches_drawn (fst (train_loop E config step bs model A)) \<le> j
          \<longrightarrow> fst (snd (train_loop E config step bs model A)) ! j = A ! j)
   \<and> (\<forall>i < batches_drawn (fst (train_loop E config step bs model A)).
          step + i < length A
          \<longrightarrow> fst (snd (train_loop E config step bs model A)) ! (step + i)
                = batch_accs E config bs model ! i)"
proof (induction bs arbitrary: step model A)
  case Nil
  then show ?case by (simp add: batches_drawn_simps)
next
  case (Cons b bs)
  let ?a = "batch_accuracy E config model b"
  show ?case
  proof (cases rule: train_loop_cases[of A step E config b bs model])
    case store_fails
    then show ?thesis by (simp add: batches_drawn_simps)
  next
    case print_fails
    then show ?thesis by (simp add: batches_drawn_simps)
  next
    case break
    then show ?thesis by (simp add: batches_drawn_simps step_prints_filters)
  next
    case (continue evs' A' model' r)
    let ?n = "batches_drawn evs'"
    have ih: "length A' = length (A[step := ?a])
        \<and> (\<forall>j. j < Suc step \<or> Suc step + ?n \<le> j \<longrightarrow> A' ! j = (A[step := ?a]) ! j)
        \<and> (\<forall>i < ?n. Suc step + i < length (A[step := ?a])
              \<longrightarrow> A' ! (Suc step + i) = batch_accs E config bs (engine_update E config model b) ! i)"
      using Cons.IH[of "Suc step" "engine_update E config model b" "A[step := ?a]"] continue(4)
      by simp
    have n: "batches_drawn (fst (train_loop E config step (b # bs) model A)) = Suc ?n"
      using continue(5) by (simp add: batches_drawn_simps step_prints_filters)
    have r: "fst (snd (train_loop E config step (b # bs) model A)) = A'"
      using continue(5) by simp
    have len: "length A' = length A" using ih by simp
    have out: "A' ! j = A ! j" if "j < step \<or> step + Suc ?n \<le> j" for j
    proof -
      have "A' ! j = (A[step := ?a]) ! j" using ih that by auto
      also have "\<dots> = A ! j" using that by auto
      finally show ?thesis .
    qed
    have inn: "A' ! (step + i) = batch_accs E config (b # bs) model ! i"
      if "i < Suc ?n" "step + i < length A" for i
    proof (cases i)
      case 0
      have "A' ! step = (A[step := ?a]) ! step" using ih by auto
      then show ?thesis using 0 continue(1) by simp
    next
      case (Suc k)
      then have "A' ! (Suc step + k) = batch_accs E config bs (engine_update E config model b) ! k"
        using ih that by auto
      then show ?thesis using Suc by simp
    qed
    show ?thesis unfolding n r using len out inn by blast
  qed
qed

lemma train_loop_model:
  "fst (snd (snd (train_loop E config step bs model A)))
     = fold (\<lambda>b m. engine_update E config m b)
         (take (batches_drawn (fst (train_loop E config step bs model A))) bs) model"
proof (induction bs arbitrary: step model A)
  case Nil
  then show ?case by (simp add: batches_drawn_simps)
next
  case (Cons b bs)
  show ?case
  proof (cases rule: train_loop_cases[of A step E config b bs model])
    case (continue evs' A' model' r)
    have "model' = fold (\<lambda>b m. engine_update E config m b) (take (batches_drawn evs') bs)
                     (engine_update E config model b)"
      using Cons.IH[of "Suc step" "engine_update E config model b"
                       "A[step := batch_accuracy E config model b]"] continue(4)
      by simp
    then show ?thesis using continue(5)
      by (simp add: batches_drawn_simps step_prints_filters)
  qed (simp_all add: batches_drawn_simps step_prints_filters)
qed

subsection \<open>The operations on a batch\<close>

lemma train_setup_result:
  assumes "train_setup E config = (ev1, Inr (model, A))"
  shows "\<exists>c. select_model config = Some c
           \<and> model = new_model E c (input_length config) (input_dim config) (num_hidden config)
                        (num_classes config) (batch_size config) (select_device E config)
           \<and> A = replicate (nat (train_steps config + 1)) 0
           \<and> 0 \<le> train_steps config + 1 \<and> 0 < batch_size config
           \<and> 0 \<le> learning_rate config
           \<and> ev1 = [New_model c (input_length config) (input_dim config) (num_hidden config)
                        (num_classes config) (batch_size config) (select_device E config),
                     New_dataset (input_length config + 1), New_loader (batch_size config) 0,
                     New_criterion, New_optimizer (learning_rate config)]"
  using assms
  by (auto simp: train_setup_def Let_def np_zeros_def split: option.splits if_splits)

lemma train_setup_events_no_step:
  "filter is_step_op (fst (train_setup E config)) = []"
  "batches_drawn (fst (train_setup E config)) = 0"
  by (auto simp: train_setup_def Let_def batches_drawn_def split: option.splits sum.splits)

lemma batches_drawn_Cons:
  "batches_drawn (e # evs) = (if is_forward e then 1 else 0) + batches_drawn evs"
  by (simp add: batches_drawn_def)

lemma train_saves_no_step:
  "filter is_step_op (train_saves config A) = []"
  "batches_drawn (train_saves config A) = 0"
  by (simp_all add: train_saves_def batches_drawn_def)

lemma lowered_fields:
  "input_length (lowered config) = input_length config"
  "input_dim (lowered config) = input_dim config"
  "num_classes (lowered config) = num_classes config"
  "num_hidden (lowered config) = num_hidden config"
  "batch_size (lowered config) = batch_size config"
  "learning_rate (lowered config) = learning_rate config"
  "train_steps (lowered config) = train_steps config"
  "max_norm (lowered config) = max_norm config"
  "device (lowered config) = device config"
  "experiment_flag (lowered config) = experiment_flag config"
  "print_every (lowered config) = print_every config"
  "model_type (lowered config) = lower (model_type config)"
  by (simp_all add: lowered_def)

lemma lowered_step:
  "batch_accuracy E (lowered config) = batch_accuracy E config"
  "engine_update E (lowered config) = engine_update E config"
  "step_ops (lowered config) = step_ops config"
  by (auto simp: fun_eq_iff batch_accuracy_def accuracy_def engine_update_def step_ops_def
        lowered_fields)

lemma lowered_batch_ops:
  "batch_ops E (lowered config) step bs model = batch_ops E config step bs model"
  by (induction bs arbitrary: step model) (simp_all add: lowered_step)

lemma lowered_batch_accs:
  "batch_accs E (lowered config) bs model = batch_accs E config bs model"
  by (induction bs arbitrary: model) (simp_all add: lowered_step)

lemma select_device_lowered:
  "select_device E (lowered config) = select_device E config"
  by (simp add: select_device_def lowered_fields)

lemma train_run:
  obtains (asserted)
      "lower (model_type config) \<notin> set [''rnn'', ''lstm'', ''rrn'']"
      "train E config = (lowered config, [Print_config (vars_config config)], Inl AssertionError)"
  | (no_loop) ev1 e where
      "lower (model_type config) \<in> set [''rnn'', ''lstm'', ''rrn'']"
      "train_setup E (lowered config) = (ev1, Inl e)"
      "train E config = (lowered config, [Print_config (vars_config config)] @ ev1, Inl e)"
  | (loop) c ev1 ev2 A model' r where
      "lower (model_type config) \<in> set [''rnn'', ''lstm'', ''rrn'']"
      "select_model (lowered config) = Some c"
      "train_setup E (lowered config)
         = (ev1, Inr (new_model E c (input_length config) (input_dim config) (num_hidden config)
                        (num_classes config) (batch_size config) (select_device E config),
                      replicate (nat (train_steps config + 1)) 0))"
      "0 \<le> train_steps config + 1" "0 < batch_size config"
      "train_loop E (lowered config) 0
         (batches E (input_length config + 1) (batch_size config))
         (new_model E c (input_length config) (input_dim config) (num_hidden config)
            (num_classes config) (batch_size config) (select_device E config))
         (replicate (nat (train_steps config + 1)) 0)
         = (ev2, A, model', r)"
      "fst (snd (train E config))
         = [Print_config (vars_config config)] @ ev1 @ ev2
             @ (case r of None \<Rightarrow> train_saves (lowered config) A | Some e \<Rightarrow> [])"
      "snd (snd (train E config))
         = (case r of
              Some e \<Rightarrow> Inl e
            | None \<Rightarrow>
                if experiment_flag config
                then (case train_stats A of Inl e \<Rightarrow> Inl e | Inr st \<Rightarrow> Inr (Some st))
                else Inr None)"
proof (cases rule: train_cases[where config = config and E = E])
  case assert_fails
  show ?thesis by (rule asserted[OF assert_fails])
next
  case (setup_raises ev1 e)
  show ?thesis by (rule no_loop[OF setup_raises])
next
  case (loop_raises ev1 model A0 ev2 A model' e)
  obtain c where c: "select_model (lowered config) = Some c"
    "model = new_model E c (input_length config) (input_dim config) (num_hidden config)
               (num_classes config) (batch_size config) (select_device E config)"
    "A0 = replicate (nat (train_steps config + 1)) 0"
    "0 \<le> train_steps config + 1" "0 < batch_size config"
    using train_setup_result[OF loop_raises(2)]
    by (auto simp: lowered_fields select_device_lowered)
  show ?thesis
    by (rule loop[of c ev1 ev2 A model' "Some e"])
       (use c loop_raises in simp_all)
next
  case (loop_done ev1 model A0 ev2 A model')
  obtain c where c: "select_model (lowered config) = Some c"
    "model = new_model E c (input_length config) (input_dim config) (num_hidden config)
               (num_classes config) (batch_size config) (select_device E config)"
    "A0 = replicate (nat (train_steps config + 1)) 0"
    "0 \<le> train_steps config + 1" "0 < batch_size config"
    using train_setup_result[OF loop_done(2)]
    by (auto simp: lowered_fields select_device_lowered)
  show ?thesis
    by (rule loop[of c ev1 ev2 A model' None])
       (use c loop_done in simp_all)
qed

text \<open>
  C1. In every run of \<open>train\<close> with a known model type, the operations of the loop are
  those of the batches drawn, batch after batch from step 0: for each batch the forward
  pass, the loss, \<^verbatim>\<open>zero_grad\<close>, \<^verbatim>\<open>backward\<close>, the clipping of the gradient norm to
  \<open>max_norm\<close>, one optimizer step and the store of the batch accuracy at the step index,
  in this order and nothing else but the diagnostic print; the engine state of a batch is
  the one left by the updates of the batches before it. The array saved at the end of the
  run holds, at the index of each batch drawn, the accuracy of that batch. (An event is a
  call: with \<open>train_steps = -1\<close> the array is empty and the store of step 0 is the call
  that raises \<^verbatim>\<open>IndexError\<close>; no array is saved then.)
\<close>

theorem train_batch_operations:
  assumes "lower (model_type config) \<in> set [''rnn'', ''lstm'', ''rrn'']"
  shows "filter is_step_op (fst (snd (train E config)))
           = batch_ops E config 0
               (take (batches_drawn (fst (snd (train E config))))
                  (batches E (input_length config + 1) (batch_size config)))
               (new_model E
                  (if lower (model_type config) = ''rnn'' then VanillaRNN
                   else if lower (model_type config) = ''lstm'' then LSTM else RRN)
                  (input_length config) (input_dim config) (num_hidden config)
                  (num_classes config) (batch_size config) (select_device E config))
         \<and> (\<forall>name A. Numpy_save name (Floats A) \<in> set (fst (snd (train E config))) \<longrightarrow>
               (\<forall>i < batches_drawn (fst (snd (train E config))). i < length A \<longrightarrow>
                  A ! i = batch_accs E config
                            (batches E (input_length config + 1) (batch_size config))
                            (new_model E
                               (if lower (model_type config) = ''rnn'' then VanillaRNN
                                else if lower (model_type config) = ''lstm'' then LSTM else RRN)
                               (input_length config) (input_dim config) (num_hidden config)
                               (num_classes config) (batch_size config) (select_device E config))
                          ! i))"
proof (cases rule: train_run[where config = config and E = E])
  case asserted
  then show ?thesis using assms by simp
next
  case (no_loop ev1 e)
  have "filter is_step_op ev1 = []" "batches_drawn ev1 = 0"
    using train_setup_events_no_step[of E "lowered config"] no_loop(2) by simp_all
  moreover have "Numpy_save name (Floats A) \<notin> set ev1" for name A
    using no_loop(2)
    by (auto simp: train_setup_def Let_def split: option.splits sum.splits if_splits)
  ultimately show ?thesis using no_loop(3)
    by (simp add: batches_drawn_def)
next
  case (loop c ev1 ev2 A model' r)
  let ?bs = "batches E (input_length config + 1) (batch_size config)"
  let ?m = "new_model E c (input_length config) (input_dim config) (num_hidden config)
            (num_classes config) (batch_size config) (select_device E config)"
  let ?A0 = "replicate (nat (train_steps config + 1)) (0::rat)"
  have c: "c = (if lower (model_type config) = ''rnn'' then VanillaRNN
                 else if lower (model_type config) = ''lstm'' then LSTM else RRN)"
    using loop(2) assms by (auto simp: select_model_lowered split: if_splits)
  have s1: "filter is_step_op ev1 = []" "batches_drawn ev1 = 0"
    using train_setup_events_no_step[of E "lowered config"] loop(3) by simp_all
  have s1': "Numpy_save name (Floats B) \<notin> set ev1" for name B
    using train_setup_result[OF loop(3)] by auto
  have ops: "filter is_step_op ev2 = batch_ops E config 0 (take (batches_drawn ev2) ?bs) ?m"
    using train_loop_ops[of E "lowered config" 0 ?bs ?m ?A0] loop(6)
    by (simp add: lowered_batch_ops)
  have arr: "\<forall>i < batches_drawn ev2. i < length ?A0 \<longrightarrow> A ! i = batch_accs E config ?bs ?m ! i"
    and len: "length A = length ?A0"
    using train_loop_array[of E "lowered config" 0 ?bs ?m ?A0] loop(6)
    by (simp_all add: lowered_batch_accs)
  have s2': "Numpy_save name (Floats B) \<notin> set ev2" for name B
    using train_loop_events_step[of E "lowered config" 0 ?bs ?m ?A0] loop(6) by auto
  have n: "batches_drawn (fst (snd (train E config))) = batches_drawn ev2"
    using loop(7) s1
    by (simp add: batches_drawn_simps batches_drawn_Cons train_saves_no_step split: option.splits)
  have f: "filter is_step_op (fst (snd (train E config))) = filter is_step_op ev2"
    using loop(7) s1 by (simp add: train_saves_no_step split: option.splits)
  have sv: "B = A" if "Numpy_save name (Floats B) \<in> set (fst (snd (train E config)))" for name B
    using that loop(7) s1' s2' by (auto simp: train_saves_def split: option.splits)
  show ?thesis
    unfolding n f using ops arr len sv by (auto simp: c)
qed

theorem train_batch_operations_witness:
  "lower (model_type cfg2) \<in> set [''rnn'', ''lstm'', ''rrn'']
   \<and> filter is_step_op (fst (snd (train env0 cfg2)))
       = step_ops cfg2 0 (1/2) @ step_ops cfg2 1 1 @ step_ops cfg2 2 1
   \<and> Numpy_save ''train_acc_rrn10'' (Floats [1/2, 1, 1]) \<in> set (fst (snd (train env0 cfg2)))
   \<and> (1::nat) < batches_drawn (fst (snd (train env0 cfg2))) \<and> (1::nat) < length [1/2, 1, 1::rat]
   \<and> [1/2, 1, 1::rat] ! 1 = batch_accs env0 cfg2 (batches env0 11 2) 0 ! 1"
proof -
  have v: "lower (model_type cfg2) \<in> set [''rnn'', ''lstm'', ''rrn'']" by code_simp
  have s: "Numpy_save ''train_acc_rrn10'' (Floats [1/2, 1, 1]) \<in> set (fst (snd (train env0 cfg2)))"
    by code_simp
  have n: "(1::nat) < batches_drawn (fst (snd (train env0 cfg2)))" by code_simp
  have o: "batch_ops env0 cfg2 0 (take (batches_drawn (fst (snd (train env0 cfg2))))
                  (batches env0 (input_length cfg2 + 1) (batch_size cfg2)))
               (new_model env0
                  (if lower (model_type cfg2) = ''rnn'' then VanillaRNN
                   else if lower (model_type cfg2) = ''lstm'' then LSTM else RRN)
                  (input_length cfg2) (input_dim cfg2) (num_hidden cfg2)
                  (num_classes cfg2) (batch_size cfg2) (select_device env0 cfg2))
           = step_ops cfg2 0 (1/2) @ step_ops cfg2 1 1 @ step_ops cfg2 2 1"
    by code_simp
  have a: "batch_accs env0 cfg2 (batches env0 (input_length cfg2 + 1) (batch_size cfg2))
                            (new_model env0
                               (if lower (model_type cfg2) = ''rnn'' then VanillaRNN
                                else if lower (model_type cfg2) = ''lstm'' then LSTM else RRN)
                               (input_length cfg2) (input_dim cfg2) (num_hidden cfg2)
                               (num_classes cfg2) (batch_size cfg2) (select_device env0 cfg2))
            = batch_accs env0 cfg2 (batches env0 11 2) 0"
    by code_simp
  note t = train_batch_operations[OF v, of env0]
  have c1: "filter is_step_op (fst (snd (train env0 cfg2)))
       = step_ops cfg2 0 (1/2) @ step_ops cfg2 1 1 @ step_ops cfg2 2 1"
    using conjunct1[OF t] by (simp only: o)
  have "\<forall>i < batches_drawn (fst (snd (train env0 cfg2))). i < length [1/2, 1, 1::rat] \<longrightarrow>
          [1/2, 1, 1::rat] ! i = batch_accs env0 cfg2 (batches env0 11 2) 0 ! i"
    using conjunct2[OF t] s unfolding a by blast
  then have c2: "[1/2, 1, 1::rat] ! 1 = batch_accs env0 cfg2 (batches env0 11 2) 0 ! 1"
    using n by force
  have l: "(1::nat) < length [1/2, 1, 1::rat]" by simp
  show ?thesis
    using v c1 s n l c2 by blast
qed

subsection \<open>The batches of a run\<close>

lemma train_setup_succeeds:
  assumes "select_model config = Some c" "0 < batch_size config" "0 \<le> learning_rate config"
    "0 \<le> train_steps config + 1"
  shows "\<exists>ev model A. train_setup E config = (ev, Inr (model, A))"
  using assms by (simp add: train_setup_def Let_def np_zeros_def)

lemma train_loop_draws_first:
  assumes "bs \<noteq> []"
  shows "0 < batches_drawn (fst (train_loop E config step bs model A))"
proof -
  obtain b rest where bs: "bs = b # rest" using assms by (cases bs) auto
  show ?thesis
    unfolding bs
    by (cases rule: train_loop_cases[of A step E config b rest model])
       (simp_all add: batches_drawn_simps step_prints_filters)
qed

text \<open>The operations and the number of batches of a run, from the loader of the run.\<close>

lemma train_draws_from_loader:
  assumes valid: "lower (model_type config) \<in> set [''rnn'', ''lstm'', ''rrn'']"
  shows "filter is_step_op (fst (snd (train E config)))
           = batch_ops E config 0
               (take (batches_drawn (fst (snd (train E config))))
                  (batches E (input_length config + 1) (batch_size config)))
               (new_model E
                  (if lower (model_type config) = ''rnn'' then VanillaRNN
                   else if lower (model_type config) = ''lstm'' then LSTM else RRN)
                  (input_length config) (input_dim config) (num_hidden config)
                  (num_classes config) (batch_size config) (select_device E config))"
    and "0 < batch_size config \<Longrightarrow> 0 \<le> learning_rate config \<Longrightarrow> 0 \<le> train_steps config + 1
         \<Longrightarrow> batches E (input_length config + 1) (batch_size config) \<noteq> []
         \<Longrightarrow> 0 < batches_drawn (fst (snd (train E config)))"
proof -
  have "filter is_step_op (fst (snd (train E config)))
           = batch_ops E config 0
               (take (batches_drawn (fst (snd (train E config))))
                  (batches E (input_length config + 1) (batch_size config)))
               (new_model E
                  (if lower (model_type config) = ''rnn'' then VanillaRNN
                   else if lower (model_type config) = ''lstm'' then LSTM else RRN)
                  (input_length config) (input_dim config) (num_hidden config)
                  (num_classes config) (batch_size config) (select_device E config))
        \<and> (0 < batch_size config \<longrightarrow> 0 \<le> learning_rate config \<longrightarrow> 0 \<le> train_steps config + 1
         \<longrightarrow> batches E (input_length config + 1) (batch_size config) \<noteq> []
         \<longrightarrow> 0 < batches_drawn (fst (snd (train E config))))"
  proof (cases rule: train_run[where config = config and E = E])
    case asserted
    then show ?thesis using valid by simp
  next
    case (no_loop ev1 e)
    have e1: "filter is_step_op ev1 = []" "batches_drawn ev1 = 0"
      using train_setup_events_no_step[of E "lowered config"] no_loop(2) by simp_all
    obtain c where c: "select_model (lowered config) = Some c"
      using valid by (auto simp: select_model_lowered)
    have "\<not> (0 < batch_size config \<and> 0 \<le> learning_rate config \<and> 0 \<le> train_steps config + 1)"
    proof
      assume "0 < batch_size config \<and> 0 \<le> learning_rate config \<and> 0 \<le> train_steps config + 1"
      then have "\<exists>ev model A. train_setup E (lowered config) = (ev, Inr (model, A))"
        using train_setup_succeeds[OF c, of E] by (simp add: lowered_fields)
      then show False using no_loop(2) by simp
    qed
    then show ?thesis using no_loop(3) e1 by (auto simp: batches_drawn_Cons)
  next
    case (loop c ev1 ev2 A model' r)
    let ?bs = "batches E (input_length config + 1) (batch_size config)"
    let ?m = "new_model E c (input_length config) (input_dim config) (num_hidden config)
              (num_classes config) (batch_size config) (select_device E config)"
    let ?A0 = "replicate (nat (train_steps config + 1)) (0::rat)"
    have c: "c = (if lower (model_type config) = ''rnn'' then VanillaRNN
                   else if lower (model_type config) = ''lstm'' then LSTM else RRN)"
      using loop(2) valid by (auto simp: select_model_lowered split: if_splits)
    have s1: "filter is_step_op ev1 = []" "batches_drawn ev1 = 0"
      using train_setup_events_no_step[of E "lowered config"] loop(3) by simp_all
    have ops: "filter is_step_op ev2 = batch_ops E config 0 (take (batches_drawn ev2) ?bs) ?m"
      using train_loop_ops[of E "lowered config" 0 ?bs ?m ?A0] loop(6)
      by (simp add: lowered_batch_ops)
    have n: "batches_drawn (fst (snd (train E config))) = batches_drawn ev2"
      using loop(7) s1
      by (simp add: batches_drawn_simps batches_drawn_Cons train_saves_no_step split: option.splits)
    have f: "filter is_step_op (fst (snd (train E config))) = filter is_step_op ev2"
      using loop(7) s1 by (simp add: train_saves_no_step split: option.splits)
    have pos: "0 < batches_drawn ev2" if "?bs \<noteq> []"
      using train_loop_draws_first[OF that, of E "lowered config" 0 ?m ?A0] loop(6) by simp
    show ?thesis unfolding n f using ops pos by (simp add: c)
  qed
  then show "filter is_step_op (fst (snd (train E config)))
           = batch_ops E config 0
               (take (batches_drawn (fst (snd (train E config))))
                  (batches E (input_length config + 1) (batch_size config)))
               (new_model E
                  (if lower (model_type config) = ''rnn'' then VanillaRNN
                   else if lower (model_type config) = ''lstm'' then LSTM else RRN)
                  (input_length config) (input_dim config) (num_hidden config)
                  (num_classes config) (batch_size config) (select_device E config))"
    and "0 < batch_size config \<Longrightarrow> 0 \<le> learning_rate config \<Longrightarrow> 0 \<le> train_steps config + 1
         \<Longrightarrow> batches E (input_length config + 1) (batch_size config) \<noteq> []
         \<Longrightarrow> 0 < batches_drawn (fst (snd (train E config)))"
    by blast+
qed

text \<open>
  C6. A run of \<open>train\<close> builds one dataset, of sequence length \<open>input_length + 1\<close>, and
  wraps it in one loader with batch size \<open>batch_size\<close> and no worker process. The batches
  its loop processes are the first batches that this loader yields, in their order, and
  the run depends on the loader only through the batches it yields for that sequence
  length and that batch size. When the set-up succeeds (positive batch size, learning rate
  not negative, \<open>train_steps \<ge> -1\<close>) and the loader is not empty, at least one batch is
  drawn.
\<close>

theorem train_data_source:
  assumes "lower (model_type config) \<in> set [''rnn'', ''lstm'', ''rrn'']"
  shows "filter is_data_source (fst (snd (train E config)))
           = [New_dataset (input_length config + 1), New_loader (batch_size config) 0]
         \<and> (\<forall>b. b (input_length config + 1) (batch_size config)
                    = batches E (input_length config + 1) (batch_size config)
                  \<longrightarrow> train (E\<lparr>batches := b\<rparr>) config = train E config)
         \<and> filter is_step_op (fst (snd (train E config)))
             = batch_ops E config 0
                 (take (batches_drawn (fst (snd (train E config))))
                    (batches E (input_length config + 1) (batch_size config)))
                 (new_model E
                    (if lower (model_type config) = ''rnn'' then VanillaRNN
                     else if lower (model_type config) = ''lstm'' then LSTM else RRN)
                    (input_length config) (input_dim config) (num_hidden config)
                    (num_classes config) (batch_size config) (select_device E config))
         \<and> (0 < batch_size config \<and> 0 \<le> learning_rate config \<and> - 1 \<le> train_steps config
              \<and> batches E (input_length config + 1) (batch_size config) \<noteq> []
             \<longrightarrow> 0 < batches_drawn (fst (snd (train E config))))"
proof -
  obtain c rest ev2 tl where h:
    "select_model (lowered config) = Some c"
    "fst (snd (train E config)) =
       [Print_config (vars_config config),
        New_model c (input_length config) (input_dim config) (num_hidden config)
          (num_classes config) (batch_size config) (select_device E config),
        New_dataset (input_length config + 1), New_loader (batch_size config) 0]
       @ rest @ ev2 @ tl"
    "set rest \<subseteq> {New_criterion, New_optimizer (learning_rate config)}"
    "\<forall>e\<in>set ev2. is_step_event e"
    "tl = [] \<or> (\<exists>a. tl = train_saves (lowered config) a)"
    using train_events_cases[OF assms, of E] by blast
  have r: "filter is_data_source rest = []"
    using h(3) by (auto simp: filter_empty_conv)
  have e2: "filter is_data_source ev2 = []"
    using filter_step_events[OF h(4)] is_data_source_not_step by blast
  have t: "filter is_data_source tl = []"
    using h(5) train_saves_filters(2) by auto
  have a: "filter is_data_source (fst (snd (train E config)))
           = [New_dataset (input_length config + 1), New_loader (batch_size config) 0]"
    unfolding h(2) using r e2 t by simp
  have b: "train (E\<lparr>batches := b\<rparr>) config = train E config"
    if "b (input_length config + 1) (batch_size config)
            = batches E (input_length config + 1) (batch_size config)"
    for b :: "int \<Rightarrow> int \<Rightarrow> ('a \<times> nat list) list"
    using that
    by (simp add: train_def train_setup_batches_irrelevant train_loop_batches_irrelevant
          cong: if_cong prod.case_cong sum.case_cong option.case_cong)
  note c = train_draws_from_loader(1)[OF assms, of E]
  have d: "0 < batches_drawn (fst (snd (train E config)))"
    if "0 < batch_size config \<and> 0 \<le> learning_rate config \<and> - 1 \<le> train_steps config
              \<and> batches E (input_length config + 1) (batch_size config) \<noteq> []"
    using train_draws_from_loader(2)[OF assms, of E] that by simp
  show ?thesis using a b c d by blast
qed

theorem train_data_source_witness:
  "lower (model_type cfg2) \<in> set [''rnn'', ''lstm'', ''rrn'']
   \<and> filter is_data_source (fst (snd (train env0 cfg2))) = [New_dataset 11, New_loader 2 0]
   \<and> batches1 (input_length cfg2 + 1) (batch_size cfg2)
       = batches env0 (input_length cfg2 + 1) (batch_size cfg2)
   \<and> train (env0\<lparr>batches := batches1\<rparr>) cfg2 = train env0 cfg2
   \<and> 0 < batch_size cfg2 \<and> 0 \<le> learning_rate cfg2 \<and> - 1 \<le> train_steps cfg2
   \<and> batches env0 (input_length cfg2 + 1) (batch_size cfg2) \<noteq> []
   \<and> 0 < batches_drawn (fst (snd (train env0 cfg2)))
   \<and> batches_drawn (fst (snd (train env0 cfg2))) = 3
   \<and> filter is_step_op (fst (snd (train env0 cfg2)))
       = step_ops cfg2 0 (1/2) @ step_ops cfg2 1 1 @ step_ops cfg2 2 1
   \<and> batches2 (input_length cfg2 + 1) (batch_size cfg2) = [((), [1, 1])]
   \<and> batches_drawn (fst (snd (train (env0\<lparr>batches := batches2\<rparr>) cfg2))) = 1
   \<and> filter is_step_op (fst (snd (train (env0\<lparr>batches := batches2\<rparr>) cfg2)))
       = step_ops cfg2 0 0
   \<and> train (env0\<lparr>batches := batches2\<rparr>) cfg2 \<noteq> train env0 cfg2"
proof -
  let ?E2 = "env0\<lparr>batches := batches2\<rparr>"
  have v: "lower (model_type cfg2) \<in> set [''rnn'', ''lstm'', ''rrn'']" by code_simp
  have b: "batches1 (input_length cfg2 + 1) (batch_size cfg2)
       = batches env0 (input_length cfg2 + 1) (batch_size cfg2)"
    by (simp add: batches1_def cfg2_def cfg0_def env0_def)
  have l: "input_length cfg2 + 1 = 11" "batch_size cfg2 = 2"
    by (simp_all add: cfg2_def cfg0_def)
  have p: "0 < batch_size cfg2" "0 \<le> learning_rate cfg2" "- 1 \<le> train_steps cfg2"
    "batches env0 (input_length cfg2 + 1) (batch_size cfg2) \<noteq> []"
    by (simp_all add: cfg2_def cfg0_def env0_def)
  have b2: "batches2 (input_length cfg2 + 1) (batch_size cfg2) = [((), [1, 1])]"
    by (simp add: batches2_def l)
  have n: "batches_drawn (fst (snd (train env0 cfg2))) = 3" by code_simp
  have n2: "batches_drawn (fst (snd (train ?E2 cfg2))) = 1" by code_simp
  have o: "batch_ops env0 cfg2 0
             (take (batches_drawn (fst (snd (train env0 cfg2))))
                (batches env0 (input_length cfg2 + 1) (batch_size cfg2)))
             (new_model env0
                (if lower (model_type cfg2) = ''rnn'' then VanillaRNN
                 else if lower (model_type cfg2) = ''lstm'' then LSTM else RRN)
                (input_length cfg2) (input_dim cfg2) (num_hidden cfg2)
                (num_classes cfg2) (batch_size cfg2) (select_device env0 cfg2))
           = step_ops cfg2 0 (1/2) @ step_ops cfg2 1 1 @ step_ops cfg2 2 1"
    by code_simp
  have o2: "batch_ops ?E2 cfg2 0
             (take (batches_drawn (fst (snd (train ?E2 cfg2))))
                (batches ?E2 (input_length cfg2 + 1) (batch_size cfg2)))
             (new_model ?E2
                (if lower (model_type cfg2) = ''rnn'' then VanillaRNN
                 else if lower (model_type cfg2) = ''lstm'' then LSTM else RRN)
                (input_length cfg2) (input_dim cfg2) (num_hidden cfg2)
                (num_classes cfg2) (batch_size cfg2) (select_device ?E2 cfg2))
           = step_ops cfg2 0 0"
    by code_simp
  note t = train_data_source[OF v, of env0]
  note t2 = train_data_source[OF v, of ?E2]
  have c1: "filter is_data_source (fst (snd (train env0 cfg2))) = [New_dataset 11, New_loader 2 0]"
    using t by (simp add: l)
  have c2: "train (env0\<lparr>batches := batches1\<rparr>) cfg2 = train env0 cfg2"
    using t b by blast
  have c3: "0 < batches_drawn (fst (snd (train env0 cfg2)))"
    using t p by blast
  have c4: "filter is_step_op (fst (snd (train env0 cfg2)))
       = step_ops cfg2 0 (1/2) @ step_ops cfg2 1 1 @ step_ops cfg2 2 1"
    using t unfolding o by blast
  have c5: "filter is_step_op (fst (snd (train ?E2 cfg2))) = step_ops cfg2 0 0"
    using t2 unfolding o2 by blast
  have c6: "train ?E2 cfg2 \<noteq> train env0 cfg2"
  proof
    assume "train ?E2 cfg2 = train env0 cfg2"
    then have "batches_drawn (fst (snd (train ?E2 cfg2)))
                 = batches_drawn (fst (snd (train env0 cfg2)))"
      by simp
    then show False unfolding n n2 by simp
  qed
  show ?thesis
    using v c1 b c2 p c3 n c4 b2 n2 c5 c6 by blast
qed

subsection \<open>The end of the loop\<close>

lemma update_zeros:
  assumes "length p = step" "0 < k"
  shows "(p @ replicate k (0::rat))[step := a] = (p @ [a]) @ replicate (k - 1) 0"
proof -
  obtain k' where k: "k = Suc k'" using assms(2) by (cases k) auto
  show ?thesis using assms(1) by (simp add: k list_update_append)
qed

lemma acc_array_prefix:
  assumes "length p = step"
  shows "acc_array config (p @ a # rest) step
           = (p @ [a]) @ replicate (nat (train_steps config) - step) 0"
  using assms by (simp add: acc_array_def)

lemma store_in_step_ops:
  "Store_acc i a \<in> set (step_ops config step v) \<longleftrightarrow> i = step \<and> a = v"
  by (auto simp: step_ops_def)

lemma store_in_step_prints:
  "Store_acc i a \<notin> set (step_prints config step)"
  by (simp add: step_prints_def)

lemma train_loop_run:
  "length p = step \<Longrightarrow> int step \<le> train_steps config \<Longrightarrow>
   nat (train_steps config) < step + length bs \<Longrightarrow>
   0 < batches_drawn (fst (train_loop E config step bs model
                                   (p @ replicate (nat (train_steps config) + 1 - step) 0)))
   \<and> step + batches_drawn (fst (train_loop E config step bs model
                                   (p @ replicate (nat (train_steps config) + 1 - step) 0)))
        \<le> nat (train_steps config) + 1
   \<and> fst (snd (train_loop E config step bs model
                  (p @ replicate (nat (train_steps config) + 1 - step) 0)))
        = acc_array config (p @ batch_accs E config bs model)
            (step + batches_drawn (fst (train_loop E config step bs model
                                   (p @ replicate (nat (train_steps config) + 1 - step) 0))) - 1)
   \<and> snd (snd (snd (train_loop E config step bs model
                  (p @ replicate (nat (train_steps config) + 1 - step) 0))))
        = (if print_every config = 0 then Some ZeroDivisionError else None)
   \<and> (\<forall>s. step \<le> s
          \<and> s < step + batches_drawn (fst (train_loop E config step bs model
                                   (p @ replicate (nat (train_steps config) + 1 - step) 0))) - 1
          \<longrightarrow> \<not> leaves config (acc_array config (p @ batch_accs E config bs model) s) s)
   \<and> (print_every config \<noteq> 0 \<longrightarrow>
        leaves config
          (acc_array config (p @ batch_accs E config bs model)
             (step + batches_drawn (fst (train_loop E config step bs model
                                   (p @ replicate (nat (train_steps config) + 1 - step) 0))) - 1))
          (step + batches_drawn (fst (train_loop E config step bs model
                                   (p @ replicate (nat (train_steps config) + 1 - step) 0))) - 1))
   \<and> (\<forall>i a. Store_acc i a \<in> set (fst (train_loop E config step bs model
                                   (p @ replicate (nat (train_steps config) + 1 - step) 0)))
          \<longrightarrow> step \<le> i
              \<and> i < step + batches_drawn (fst (train_loop E config step bs model
                                   (p @ replicate (nat (train_steps config) + 1 - step) 0))))"
proof (induction bs arbitrary: step p model)
  case Nil
  then show ?case by simp
next
  case (Cons b bs)
  let ?T = "nat (train_steps config)"
  let ?A = "p @ replicate (?T + 1 - step) (0::rat)"
  let ?a = "batch_accuracy E config model b"
  let ?m1 = "engine_update E config model b"
  let ?accs = "p @ batch_accs E config (b # bs) model"
  have stepT: "step \<le> ?T" using Cons.prems(2) by simp
  have lenA: "step < length ?A" using stepT Cons.prems(1) by simp
  have upd: "?A[step := ?a] = (p @ [?a]) @ replicate (?T + 1 - Suc step) 0"
    using update_zeros[OF Cons.prems(1), of "?T + 1 - step" ?a] stepT by simp
  have accs: "?accs = (p @ [?a]) @ batch_accs E config bs ?m1"
    by simp
  have arr: "acc_array config ?accs step = ?A[step := ?a]"
    unfolding upd using acc_array_prefix[OF Cons.prems(1), of config ?a] stepT
    by simp
  show ?case
  proof (cases rule: train_loop_cases[of ?A step E config b bs model])
    case store_fails
    then show ?thesis using lenA by simp
  next
    case print_fails
    have r: "train_loop E config step (b # bs) model ?A
               = (step_ops config step ?a, acc_array config ?accs step, ?m1,
                  Some ZeroDivisionError)"
      using print_fails(3) arr by simp
    show ?thesis unfolding r using print_fails(2) stepT
      by (auto simp: batches_drawn_simps store_in_step_ops)
  next
    case break
    have l: "leaves config (acc_array config ?accs step) step"
      using break(3) arr by simp
    have r: "train_loop E config step (b # bs) model ?A
               = (step_ops config step ?a @ step_prints config step,
                  acc_array config ?accs step, ?m1, None)"
      using break(4) arr by simp
    show ?thesis unfolding r using break(2) l stepT
      by (auto simp: batches_drawn_simps step_prints_filters store_in_step_ops
          store_in_step_prints)
  next
    case (continue evs' A' model' r)
    have nl: "\<not> leaves config (acc_array config ?accs step) step"
      using continue(3) arr by simp
    then have "int step \<noteq> train_steps config" by (simp add: leaves_def)
    then have st2: "int (Suc step) \<le> train_steps config" using Cons.prems(2) by simp
    have en2: "nat (train_steps config) < Suc step + length bs" using Cons.prems(3) by simp
    have len2: "length (p @ [?a]) = Suc step" using Cons.prems(1) by simp
    have loop2: "train_loop E config (Suc step) bs ?m1
                   ((p @ [?a]) @ replicate (?T + 1 - Suc step) 0) = (evs', A', model', r)"
      using continue(4) unfolding upd .
    note ih = Cons.IH[OF len2 st2 en2, of ?m1, unfolded loop2 accs[symmetric] fst_conv snd_conv]
    let ?n = "batches_drawn evs'"
    have res: "train_loop E config step (b # bs) model ?A
                 = ((step_ops config step ?a @ step_prints config step) @ evs', A', model', r)"
      using continue(5) .
    have n: "batches_drawn ((step_ops config step ?a @ step_prints config step) @ evs') = Suc ?n"
      by (simp add: batches_drawn_simps step_prints_filters)
    have i1: "0 < ?n" "Suc step + ?n \<le> ?T + 1"
      "A' = acc_array config ?accs (Suc step + ?n - 1)"
      "r = (if print_every config = 0 then Some ZeroDivisionError else None)"
      using ih by blast+
    have i2: "\<not> leaves config (acc_array config ?accs s) s"
      if "Suc step \<le> s" "s < Suc step + ?n - 1" for s
      using ih that by blast
    have i3: "print_every config \<noteq> 0 \<Longrightarrow>
        leaves config (acc_array config ?accs (Suc step + ?n - 1)) (Suc step + ?n - 1)"
      using ih by blast
    have i4: "Suc step \<le> i \<and> i < Suc step + ?n" if "Store_acc i v \<in> set evs'" for i v
      using ih that by blast
    have e: "step + Suc ?n - 1 = Suc step + ?n - 1" by simp
    have c5: "\<not> leaves config (acc_array config ?accs s) s"
      if "step \<le> s" "s < Suc step + ?n - 1" for s
    proof (cases "s = step")
      case True
      then show ?thesis using nl by simp
    next
      case False
      then show ?thesis using i2[of s] that by simp
    qed
    have c7: "step \<le> i \<and> i < step + Suc ?n"
      if "Store_acc i v \<in> set ((step_ops config step ?a @ step_prints config step) @ evs')" for i v
      using that i4[of i v] by (auto simp: store_in_step_ops store_in_step_prints)
    show ?thesis
      unfolding res fst_conv snd_conv n e
    proof (intro conjI)
      show "0 < Suc ?n" by simp
      show "step + Suc ?n \<le> ?T + 1" using i1(2) by simp
      show "A' = acc_array config ?accs (Suc step + ?n - 1)" by (rule i1(3))
      show "r = (if print_every config = 0 then Some ZeroDivisionError else None)" by (rule i1(4))
      show "\<forall>s. step \<le> s \<and> s < Suc step + ?n - 1
              \<longrightarrow> \<not> leaves config (acc_array config ?accs s) s"
        using c5 by blast
      show "print_every config \<noteq> 0 \<longrightarrow>
              leaves config (acc_array config ?accs (Suc step + ?n - 1)) (Suc step + ?n - 1)"
        using i3 by blast
      show "\<forall>i a. Store_acc i a
                     \<in> set ((step_ops config step ?a @ step_prints config step) @ evs')
              \<longrightarrow> step \<le> i \<and> i < step + Suc ?n"
        using c7 by blast
    qed
  qed
qed

lemma length_batch_accs: "length (batch_accs E config bs model) = length bs"
  by (induction bs arbitrary: model) simp_all

lemma batch_accuracy_le_1:
  assumes "0 < batch_size config" "int (length (snd b)) \<le> batch_size config"
  shows "batch_accuracy E config model b \<le> 1"
proof -
  let ?c = "length (filter (\<lambda>(p, l). argmax p = l) (zip (forward E model (fst b)) (snd b)))"
  have "int ?c \<le> int (length (snd b))"
    using count_matches_le[of "forward E model (fst b)" "snd b"] by simp
  then have "int ?c \<le> batch_size config" using assms(2) by linarith
  then have "(of_int (int ?c) :: rat) \<le> of_int (batch_size config)"
    by (simp only: of_int_le_iff)
  then have "(of_nat ?c :: rat) \<le> of_int (batch_size config)" by simp
  moreover have "(0::rat) < of_int (batch_size config)" using assms(1) by simp
  ultimately show ?thesis
    unfolding batch_accuracy_def accuracy_def by (simp add: divide_le_eq_1)
qed

lemma batch_accs_le_1:
  assumes "0 < batch_size config" "\<forall>b\<in>set bs. int (length (snd b)) \<le> batch_size config"
  shows "\<forall>a\<in>set (batch_accs E config bs model). a \<le> 1"
  using assms(2)
proof (induction bs arbitrary: model)
  case Nil
  then show ?case by simp
next
  case (Cons b bs)
  then show ?case using batch_accuracy_le_1[OF assms(1), of b E model] by simp
qed

lemma acc_array_le_1:
  assumes "\<forall>a\<in>set accs. a \<le> 1"
  shows "\<forall>a\<in>set (acc_array config accs s). a \<le> 1"
  using assms by (auto simp: acc_array_def dest: in_set_takeD)

lemma sum_list_le_length:
  fixes xs :: "rat list"
  assumes "\<forall>a\<in>set xs. a \<le> 1"
  shows "sum_list xs \<le> of_nat (length xs)"
  using assms by (induction xs) auto

lemma np_slice_subset: "set (np_slice A lo hi) \<subseteq> set A"
  by (auto simp: np_slice_def Let_def dest: in_set_takeD in_set_dropD)

lemma np_slice_length: "length (np_slice A lo (int s + 1)) \<le> Suc s"
proof -
  have "slice_bound (length A) (int s + 1) \<le> Suc s"
    by (simp add: slice_bound_def)
  then have "slice_bound (length A) (int s + 1) - slice_bound (length A) lo \<le> Suc s"
    by linarith
  then show ?thesis by (simp add: np_slice_def Let_def)
qed

lemma early_slice_sum:
  assumes "\<forall>a\<in>set A. a \<le> 1" "s < 4"
  shows "sum_list (np_slice A (int s - 4) (int s + 1)) / 5 \<noteq> 1"
proof -
  let ?sl = "np_slice A (int s - 4) (int s + 1)"
  have "\<forall>a\<in>set ?sl. a \<le> 1" using assms(1) np_slice_subset[of A] by blast
  then have "sum_list ?sl \<le> of_nat (length ?sl)" by (rule sum_list_le_length)
  also have "(of_nat (length ?sl) :: rat) \<le> of_nat (Suc s)"
    using np_slice_length[of A "int s - 4" s] by (simp only: of_nat_le_iff)
  also have "(of_nat (Suc s) :: rat) \<le> 4" using assms(2) by simp
  finally have "sum_list ?sl \<le> 4" .
  then show ?thesis by auto
qed

lemma early_slice_empty:
  assumes "s < 4" "4 \<le> train_steps config" "s < length accs"
  shows "np_slice (acc_array config accs s) (int s - 4) (int s + 1) = []"
proof -
  have "min (length accs) (Suc s) = Suc s" using assms(3) by simp
  moreover have "s \<le> nat (train_steps config)" using assms(1,2) by simp
  ultimately have len: "length (acc_array config accs s) = nat (train_steps config) + 1"
    by (simp add: acc_array_def)
  show ?thesis
    using assms(1,2) by (simp add: np_slice_def Let_def len slice_bound_def)
qed

lemma run_loop_facts:
  assumes "0 \<le> train_steps config" "nat (train_steps config) < length bs"
  shows "0 < batches_drawn (fst (run_loop E config bs model))"
    and "batches_drawn (fst (run_loop E config bs model)) \<le> nat (train_steps config) + 1"
    and "fst (snd (run_loop E config bs model))
           = acc_array config (batch_accs E config bs model)
               (batches_drawn (fst (run_loop E config bs model)) - 1)"
    and "snd (snd (snd (run_loop E config bs model)))
           = (if print_every config = 0 then Some ZeroDivisionError else None)"
    and "\<forall>s < batches_drawn (fst (run_loop E config bs model)) - 1.
           \<not> leaves config (acc_array config (batch_accs E config bs model) s) s"
    and "print_every config \<noteq> 0 \<longrightarrow>
           leaves config
             (acc_array config (batch_accs E config bs model)
                (batches_drawn (fst (run_loop E config bs model)) - 1))
             (batches_drawn (fst (run_loop E config bs model)) - 1)"
    and "\<forall>i a. Store_acc i a \<in> set (fst (run_loop E config bs model))
           \<longrightarrow> i < batches_drawn (fst (run_loop E config bs model))"
proof -
  have z: "replicate (nat (train_steps config + 1)) (0::rat)
             = [] @ replicate (nat (train_steps config) + 1 - 0) 0"
    using assms(1) by (simp add: nat_add_distrib)
  have r: "run_loop E config bs model
             = train_loop E config 0 bs model ([] @ replicate (nat (train_steps config) + 1 - 0) 0)"
    unfolding run_loop_def z ..
  have l: "length ([]::rat list) = 0" by simp
  have s: "int 0 \<le> train_steps config" using assms(1) by simp
  have e: "nat (train_steps config) < 0 + length bs" using assms(2) by simp
  note t = train_loop_run[OF l s e, of E model, folded r, simplified]
  show "0 < batches_drawn (fst (run_loop E config bs model))" using t by simp
  show "batches_drawn (fst (run_loop E config bs model)) \<le> nat (train_steps config) + 1"
    using t by simp
  show "fst (snd (run_loop E config bs model))
           = acc_array config (batch_accs E config bs model)
               (batches_drawn (fst (run_loop E config bs model)) - 1)"
    using t by simp
  show "snd (snd (snd (run_loop E config bs model)))
           = (if print_every config = 0 then Some ZeroDivisionError else None)"
    using t by simp
  show "\<forall>s < batches_drawn (fst (run_loop E config bs model)) - 1.
           \<not> leaves config (acc_array config (batch_accs E config bs model) s) s"
    using t by simp
  show "print_every config \<noteq> 0 \<longrightarrow>
           leaves config
             (acc_array config (batch_accs E config bs model)
                (batches_drawn (fst (run_loop E config bs model)) - 1))
             (batches_drawn (fst (run_loop E config bs model)) - 1)"
    using t by simp
  show "\<forall>i a. Store_acc i a \<in> set (fst (run_loop E config bs model))
           \<longrightarrow> i < batches_drawn (fst (run_loop E config bs model))"
    using t by simp
qed

lemma train_loop_bound:
  "int step \<le> train_steps config \<Longrightarrow> length A = nat (train_steps config) + 1 \<Longrightarrow>
   step + batches_drawn (fst (train_loop E config step bs model A)) \<le> nat (train_steps config) + 1
   \<and> (\<forall>i a. Store_acc i a \<in> set (fst (train_loop E config step bs model A))
          \<longrightarrow> int i \<le> train_steps config)
   \<and> snd (snd (snd (train_loop E config step bs model A))) \<noteq> Some IndexError"
proof (induction bs arbitrary: step model A)
  case Nil
  then show ?case by (simp add: batches_drawn_simps)
next
  case (Cons b bs)
  have lt: "step < length A" using Cons.prems by simp
  show ?case
  proof (cases rule: train_loop_cases[of A step E config b bs model])
    case store_fails
    then show ?thesis using lt by simp
  next
    case print_fails
    then show ?thesis using Cons.prems
      by (auto simp: batches_drawn_simps store_in_step_ops)
  next
    case break
    then show ?thesis using Cons.prems
      by (auto simp: batches_drawn_simps step_prints_filters store_in_step_ops
          store_in_step_prints)
  next
    case (continue evs' A' model' r)
    have "int step \<noteq> train_steps config" using continue(3) by (simp add: leaves_def)
    then have st2: "int (Suc step) \<le> train_steps config" using Cons.prems(1) by simp
    have len2: "length (A[step := batch_accuracy E config model b]) = nat (train_steps config) + 1"
      using Cons.prems(2) by simp
    note ih = Cons.IH[OF st2 len2, of "engine_update E config model b",
                      unfolded continue(4) fst_conv snd_conv]
    show ?thesis
      unfolding continue(5) fst_conv snd_conv
      using ih Cons.prems(1)
      by (auto simp: batches_drawn_simps step_prints_filters store_in_step_ops
          store_in_step_prints)
  qed
qed

lemma train_stats_nonempty:
  assumes "A \<noteq> []"
  shows "train_stats A
           = Inr [(''last acc'', PyFloat (last A)),
                  (''best acc'', PyFloat (A ! argmax A)),
                  (''step best acc'', PyInt (int (argmax A))),
                  (''num steps'', PyInt (int (length A))),
                  (''accs'', PyArray A)]"
proof -
  have "nat (int (length A) - 1) = length A - 1" by simp
  then have l: "np_get A (- 1) = Inr (last A)"
    using assms by (simp add: np_get_def np_index_def last_conv_nth)
  have "argmax A < length A" using argmax_first_largest[OF assms] by (simp add: first_largest_def)
  then have b: "np_get A (int (argmax A)) = Inr (A ! argmax A)"
    by (simp add: np_get_def np_index_def)
  show ?thesis using assms by (simp add: train_stats_def l b np_argmax_def)
qed

lemma train_stats_empty: "train_stats [] = Inl IndexError"
  by (simp add: train_stats_def np_get_def np_index_def)

subsection \<open>The number of batches and the moving average\<close>

lemma train_bound:
  assumes "0 \<le> train_steps config"
  shows "batches_drawn (fst (snd (train E config))) \<le> nat (train_steps config) + 1"
    and "\<forall>i a. Store_acc i a \<in> set (fst (snd (train E config))) \<longrightarrow> int i \<le> train_steps config"
    and "snd (snd (train E config)) \<noteq> Inl IndexError"
proof -
  have "batches_drawn (fst (snd (train E config))) \<le> nat (train_steps config) + 1
      \<and> (\<forall>i a. Store_acc i a \<in> set (fst (snd (train E config))) \<longrightarrow> int i \<le> train_steps config)
      \<and> snd (snd (train E config)) \<noteq> Inl IndexError"
  proof (cases rule: train_run[where config = config and E = E])
    case asserted
    then show ?thesis by (simp add: batches_drawn_def)
  next
    case (no_loop ev1 e)
    have "batches_drawn ev1 = 0"
      using train_setup_events_no_step(2)[of E "lowered config"] no_loop(2) by simp
    moreover have "Store_acc i a \<notin> set ev1" for i a
      using no_loop(2)
      by (auto simp: train_setup_def Let_def split: option.splits sum.splits if_splits)
    moreover have "e \<noteq> IndexError"
      using train_setup_error[of E "lowered config" e] no_loop(2) by auto
    ultimately show ?thesis using no_loop(3) by (simp add: batches_drawn_Cons)
  next
    case (loop c ev1 ev2 A model' r)
    let ?A0 = "replicate (nat (train_steps config + 1)) (0::rat)"
    let ?bs = "batches E (input_length config + 1) (batch_size config)"
    let ?m = "new_model E c (input_length config) (input_dim config) (num_hidden config)
            (num_classes config) (batch_size config) (select_device E config)"
    have s: "int 0 \<le> train_steps (lowered config)" using assms by (simp add: lowered_fields)
    have l: "length ?A0 = nat (train_steps (lowered config)) + 1"
      using assms by (simp add: lowered_fields nat_add_distrib)
    note b = train_loop_bound[OF s l, of E ?bs ?m, unfolded loop(6) fst_conv snd_conv lowered_fields]
    have lenA: "length A = length ?A0"
      using train_loop_array[of E "lowered config" 0 ?bs ?m ?A0] loop(6) by simp
    then have ne: "A \<noteq> []" using assms by auto
    have e1: "batches_drawn ev1 = 0"
      using train_setup_events_no_step(2)[of E "lowered config"] loop(3) by simp
    have e1': "Store_acc i a \<notin> set ev1" for i a
      using train_setup_result[OF loop(3)] by auto
    have n: "batches_drawn (fst (snd (train E config))) = batches_drawn ev2"
      unfolding loop(7) using e1
      by (simp add: batches_drawn_simps batches_drawn_Cons train_saves_no_step split: option.splits)
    have st: "Store_acc i a \<in> set ev2"
      if "Store_acc i a \<in> set (fst (snd (train E config)))" for i a
      using that e1' unfolding loop(7) by (auto simp: train_saves_def split: option.splits)
    have res: "snd (snd (train E config)) \<noteq> Inl IndexError"
      unfolding loop(8) using b train_stats_nonempty[OF ne] by (auto split: option.splits)
    show ?thesis unfolding n using b st res by auto
  qed
  then show "batches_drawn (fst (snd (train E config))) \<le> nat (train_steps config) + 1"
    and "\<forall>i a. Store_acc i a \<in> set (fst (snd (train E config))) \<longrightarrow> int i \<le> train_steps config"
    and "snd (snd (train E config)) \<noteq> Inl IndexError"
    by blast+
qed

lemma early_slice_nonempty:
  assumes "int s \<le> train_steps config" "train_steps config \<le> 3" "s < length accs"
  shows "np_slice (acc_array config accs s) (int s - 4) (int s + 1) \<noteq> []"
proof -
  have "min (length accs) (Suc s) = Suc s" using assms(3) by simp
  moreover have sT: "s \<le> nat (train_steps config)" using assms(1) by simp
  ultimately have len: "length (acc_array config accs s) = nat (train_steps config) + 1"
    by (simp add: acc_array_def)
  have lo: "slice_bound (nat (train_steps config) + 1) (int s - 4)
              = nat (train_steps config) + s - 3"
    using assms(1,2) by (simp add: slice_bound_def)
  have hi: "slice_bound (nat (train_steps config) + 1) (int s + 1) = Suc s"
    using sT by (simp add: slice_bound_def)
  have d: "nat (train_steps config) + s - 3 < Suc s" using assms(2) by linarith
  have "length (np_slice (acc_array config accs s) (int s - 4) (int s + 1))
          = Suc s - (nat (train_steps config) + s - 3)"
    using d sT lo hi by (simp add: np_slice_def Let_def len) linarith
  then have "0 < length (np_slice (acc_array config accs s) (int s - 4) (int s + 1))"
    using d by linarith
  then show ?thesis by simp
qed

lemma run_loop_print_zero:
  assumes "0 \<le> train_steps config" "bs \<noteq> []" "print_every config = 0"
  shows "batches_drawn (fst (run_loop E config bs model)) = 1"
proof -
  obtain b rest where bs: "bs = b # rest" using assms(2) by (cases bs) auto
  have l: "0 < length (replicate (nat (train_steps config + 1)) (0::rat))"
    using assms(1) by simp
  show ?thesis
    unfolding run_loop_def bs train_loop_print_fails[OF l assms(3)]
    by (simp add: batches_drawn_simps)
qed

text \<open>
  C4, amended. With \<open>train_steps \<ge> 0\<close>, a run of \<open>train\<close> draws at most \<open>train_steps + 1\<close>
  batches, every store \<^verbatim>\<open>train_acc[step]\<close> has its index below the length \<open>train_steps + 1\<close>
  of the array, and \<open>train\<close> never ends with \<^verbatim>\<open>IndexError\<close>. When the loader yields more
  than \<open>train_steps\<close> batches, the loop draws at least one batch and goes on exactly as
  long as neither the step equals \<open>train_steps\<close> nor the moving average
  \<^verbatim>\<open>train_acc[step-4:step+1].sum()/5\<close> equals 1; it is left by \<^verbatim>\<open>break\<close> at the first such
  step when \<open>print_every \<noteq> 0\<close>, and by \<^verbatim>\<open>ZeroDivisionError\<close> at step 0, after one
  batch, when \<open>print_every = 0\<close>. In the steps 0 to 3 the slice starts at a negative
  index; it is empty when \<open>train_steps \<ge> 4\<close> and not empty when \<open>train_steps \<le> 3\<close> (the
  start then wraps into the array). The moving average of these steps is not 1 when
  \<open>train_steps \<ge> 4\<close>, and also for a smaller \<open>train_steps\<close> when no batch has more than
  \<open>batch_size\<close> examples (the slice then has at most four entries, none above 1).
\<close>

theorem train_loop_stops:
  assumes "0 \<le> train_steps config"
  shows "batches_drawn (fst (snd (train E config))) \<le> nat (train_steps config) + 1
   \<and> (\<forall>i a. Store_acc i a \<in> set (fst (snd (train E config))) \<longrightarrow> int i < train_steps config + 1)
   \<and> snd (snd (train E config)) \<noteq> Inl IndexError
   \<and> (nat (train_steps config) < length bs \<longrightarrow>
        0 < batches_drawn (fst (run_loop E config bs model))
        \<and> batches_drawn (fst (run_loop E config bs model)) \<le> nat (train_steps config) + 1
        \<and> snd (snd (snd (run_loop E config bs model)))
             = (if print_every config = 0 then Some ZeroDivisionError else None)
        \<and> (\<forall>s < batches_drawn (fst (run_loop E config bs model)) - 1.
              \<not> leaves config (acc_array config (batch_accs E config bs model) s) s)
        \<and> (print_every config \<noteq> 0 \<longrightarrow>
              leaves config
                (acc_array config (batch_accs E config bs model)
                   (batches_drawn (fst (run_loop E config bs model)) - 1))
                (batches_drawn (fst (run_loop E config bs model)) - 1))
        \<and> (print_every config = 0 \<longrightarrow>
              batches_drawn (fst (run_loop E config bs model)) = 1)
        \<and> (\<forall>s<4. int s \<le> train_steps config \<longrightarrow>
              int s - 4 < 0
              \<and> (4 \<le> train_steps config \<longrightarrow>
                   np_slice (acc_array config (batch_accs E config bs model) s)
                     (int s - 4) (int s + 1) = [])
              \<and> (train_steps config \<le> 3 \<longrightarrow>
                   np_slice (acc_array config (batch_accs E config bs model) s)
                     (int s - 4) (int s + 1) \<noteq> []))
        \<and> (4 \<le> train_steps config
             \<or> (0 < batch_size config \<and> (\<forall>b\<in>set bs. int (length (snd b)) \<le> batch_size config))
            \<longrightarrow> (\<forall>s<4. int s \<le> train_steps config \<longrightarrow>
                   sum_list (np_slice (acc_array config (batch_accs E config bs model) s)
                               (int s - 4) (int s + 1)) / 5 \<noteq> 1)))"
proof (intro conjI impI)
  show "batches_drawn (fst (snd (train E config))) \<le> nat (train_steps config) + 1"
    by (rule train_bound(1)[OF assms])
  show "\<forall>i a. Store_acc i a \<in> set (fst (snd (train E config))) \<longrightarrow> int i < train_steps config + 1"
    using train_bound(2)[OF assms, of E] by auto
  show "snd (snd (train E config)) \<noteq> Inl IndexError"
    by (rule train_bound(3)[OF assms])
next
  assume en: "nat (train_steps config) < length bs"
  note f = run_loop_facts[OF assms en, of E model]
  show "0 < batches_drawn (fst (run_loop E config bs model))" by (rule f(1))
  show "batches_drawn (fst (run_loop E config bs model)) \<le> nat (train_steps config) + 1"
    by (rule f(2))
  show "snd (snd (snd (run_loop E config bs model)))
             = (if print_every config = 0 then Some ZeroDivisionError else None)"
    by (rule f(4))
  show "\<forall>s < batches_drawn (fst (run_loop E config bs model)) - 1.
              \<not> leaves config (acc_array config (batch_accs E config bs model) s) s"
    by (rule f(5))
  show "leaves config
                (acc_array config (batch_accs E config bs model)
                   (batches_drawn (fst (run_loop E config bs model)) - 1))
                (batches_drawn (fst (run_loop E config bs model)) - 1)"
    if "print_every config \<noteq> 0"
    using f(6) that by blast
  show "batches_drawn (fst (run_loop E config bs model)) = 1"
    if p0: "print_every config = 0"
  proof -
    have "bs \<noteq> []" using en by auto
    then show ?thesis by (rule run_loop_print_zero[OF assms _ p0])
  qed
  show "\<forall>s<4. int s \<le> train_steps config \<longrightarrow>
              int s - 4 < 0
              \<and> (4 \<le> train_steps config \<longrightarrow>
                   np_slice (acc_array config (batch_accs E config bs model) s)
                     (int s - 4) (int s + 1) = [])
              \<and> (train_steps config \<le> 3 \<longrightarrow>
                   np_slice (acc_array config (batch_accs E config bs model) s)
                     (int s - 4) (int s + 1) \<noteq> [])"
  proof (intro allI impI conjI)
    fix s :: nat
    assume s: "s < 4" "int s \<le> train_steps config"
    have len: "s < length (batch_accs E config bs model)"
      using s(2) en by (simp add: length_batch_accs)
    show "int s - 4 < 0" using s(1) by simp
    show "np_slice (acc_array config (batch_accs E config bs model) s)
                     (int s - 4) (int s + 1) = []"
      if t4: "4 \<le> train_steps config"
      using len by (rule early_slice_empty[OF s(1) t4])
    show "np_slice (acc_array config (batch_accs E config bs model) s)
                     (int s - 4) (int s + 1) \<noteq> []"
      if t3: "train_steps config \<le> 3"
      using len by (rule early_slice_nonempty[OF s(2) t3])
  qed
  show "\<forall>s<4. int s \<le> train_steps config \<longrightarrow>
                   sum_list (np_slice (acc_array config (batch_accs E config bs model) s)
                               (int s - 4) (int s + 1)) / 5 \<noteq> 1"
    if h: "4 \<le> train_steps config
             \<or> (0 < batch_size config \<and> (\<forall>b\<in>set bs. int (length (snd b)) \<le> batch_size config))"
  proof (intro allI impI)
    fix s :: nat
    assume s: "s < 4" "int s \<le> train_steps config"
    from h show "sum_list (np_slice (acc_array config (batch_accs E config bs model) s)
                               (int s - 4) (int s + 1)) / 5 \<noteq> 1"
    proof
      assume t4: "4 \<le> train_steps config"
      have "s < length (batch_accs E config bs model)"
        using s(2) en by (simp add: length_batch_accs)
      then have "np_slice (acc_array config (batch_accs E config bs model) s)
                     (int s - 4) (int s + 1) = []"
        by (rule early_slice_empty[OF s(1) t4])
      then show ?thesis by simp
    next
      assume b: "0 < batch_size config \<and> (\<forall>b\<in>set bs. int (length (snd b)) \<le> batch_size config)"
      have "\<forall>a\<in>set (batch_accs E config bs model). a \<le> 1"
        using batch_accs_le_1[of config bs E model] b by blast
      then have "\<forall>a\<in>set (acc_array config (batch_accs E config bs model) s). a \<le> 1"
        by (rule acc_array_le_1)
      then show ?thesis using s(1) by (rule early_slice_sum)
    qed
  qed
qed

text \<open>
  The slice of the first four steps is not always empty: with \<open>train_steps = 3\<close> the
  array has four entries, the start \<open>3 - 4 = -1\<close> of the slice at step 3 denotes its last
  entry, and the slice holds that entry.
\<close>

theorem early_slice_counterexample:
  "train_steps cfg3 = 3
   \<and> batches_drawn (fst (run_loop env0 cfg3 (batches env0 11 2) 0)) = 4
   \<and> fst (snd (run_loop env0 cfg3 (batches env0 11 2) 0)) = [1/2, 1, 1, 1]
   \<and> np_slice (fst (snd (run_loop env0 cfg3 (batches env0 11 2) 0))) (3 - 4) (3 + 1) = [1]"
  by code_simp

theorem train_loop_stops_witness:
  "0 \<le> train_steps cfg6 \<and> nat (train_steps cfg6) < length (batches env0 11 2)
   \<and> batches_drawn (fst (snd (train env0 cfg6))) \<le> nat (train_steps cfg6) + 1
   \<and> Store_acc 5 1 \<in> set (fst (snd (train env0 cfg6))) \<and> int 5 < train_steps cfg6 + 1
   \<and> batches_drawn (fst (run_loop env0 cfg6 (batches env0 11 2) 0)) = 6
   \<and> \<not> leaves cfg6 (acc_array cfg6 (batch_accs env0 cfg6 (batches env0 11 2) 0) 4) 4
   \<and> print_every cfg6 \<noteq> 0
   \<and> leaves cfg6 (acc_array cfg6 (batch_accs env0 cfg6 (batches env0 11 2) 0) 5) 5
   \<and> 4 \<le> train_steps cfg6
   \<and> np_slice (acc_array cfg6 (batch_accs env0 cfg6 (batches env0 11 2) 0) 3) (int 3 - 4) (int 3 + 1) = []
   \<and> 0 \<le> train_steps cfg3 \<and> nat (train_steps cfg3) < length (batches env0 11 2)
   \<and> 0 < batch_size cfg3
   \<and> list_all (\<lambda>b. int (length (snd b)) \<le> batch_size cfg3) (batches env0 11 2)
   \<and> sum_list (np_slice (acc_array cfg3 (batch_accs env0 cfg3 (batches env0 11 2) 0) 3)
                  (int 3 - 4) (int 3 + 1)) / 5 \<noteq> 1
   \<and> train_steps cfg3 \<le> 3
   \<and> np_slice (acc_array cfg3 (batch_accs env0 cfg3 (batches env0 11 2) 0) 0)
         (int 0 - 4) (int 0 + 1) \<noteq> []
   \<and> np_slice (acc_array cfg3 (batch_accs env0 cfg3 (batches env0 11 2) 0) 0)
         (int 0 - 4) (int 0 + 1) = [1/2]
   \<and> 0 \<le> train_steps cfg_p0 \<and> nat (train_steps cfg_p0) < length (batches env0 11 2)
   \<and> print_every cfg_p0 = 0
   \<and> batches_drawn (fst (run_loop env0 cfg_p0 (batches env0 11 2) 0)) = 1
   \<and> snd (snd (snd (run_loop env0 cfg_p0 (batches env0 11 2) 0))) = Some ZeroDivisionError"
proof -
  let ?bs = "batches env0 11 2"
  have h6: "0 \<le> train_steps cfg6" by (simp add: cfg6_def)
  have e6: "nat (train_steps cfg6) < length ?bs" by (simp add: cfg6_def env0_def)
  have h3: "0 \<le> train_steps cfg3" by (simp add: cfg3_def)
  have e3: "nat (train_steps cfg3) < length ?bs" by (simp add: cfg3_def env0_def)
  have b3: "0 < batch_size cfg3 \<and> (\<forall>b\<in>set ?bs. int (length (snd b)) \<le> batch_size cfg3)"
    by (simp add: cfg3_def cfg0_def env0_def)
  have st: "Store_acc 5 1 \<in> set (fst (snd (train env0 cfg6)))" by code_simp
  have n: "batches_drawn (fst (run_loop env0 cfg6 ?bs 0)) = 6" by code_simp
  have pe: "print_every cfg6 \<noteq> 0" by (simp add: cfg6_def cfg0_def)
  have t4: "4 \<le> train_steps cfg6" by (simp add: cfg6_def)
  have s3: "(3::nat) < 4" "int 3 \<le> train_steps cfg6" "int 3 \<le> train_steps cfg3"
    by (simp_all add: cfg6_def cfg3_def)
  note t6 = train_loop_stops[OF h6, of env0 ?bs 0]
  note t3 = train_loop_stops[OF h3, of env0 ?bs 0]
  have c1: "batches_drawn (fst (snd (train env0 cfg6))) \<le> nat (train_steps cfg6) + 1"
    using t6 by blast
  have c2: "int 5 < train_steps cfg6 + 1" using t6 st by blast
  have c3: "\<forall>s < batches_drawn (fst (run_loop env0 cfg6 ?bs 0)) - 1.
              \<not> leaves cfg6 (acc_array cfg6 (batch_accs env0 cfg6 ?bs 0) s) s"
    using t6 e6 by blast
  have c3': "\<not> leaves cfg6 (acc_array cfg6 (batch_accs env0 cfg6 ?bs 0) 4) 4"
    using c3 unfolding n by simp
  have c4: "leaves cfg6 (acc_array cfg6 (batch_accs env0 cfg6 ?bs 0)
                   (batches_drawn (fst (run_loop env0 cfg6 ?bs 0)) - 1))
                (batches_drawn (fst (run_loop env0 cfg6 ?bs 0)) - 1)"
    using t6 e6 pe by blast
  have c4': "leaves cfg6 (acc_array cfg6 (batch_accs env0 cfg6 ?bs 0) 5) 5"
    using c4 unfolding n by simp
  have c5: "\<forall>s<4. int s \<le> train_steps cfg6 \<longrightarrow>
              int s - 4 < 0
              \<and> (4 \<le> train_steps cfg6 \<longrightarrow>
                   np_slice (acc_array cfg6 (batch_accs env0 cfg6 ?bs 0) s)
                     (int s - 4) (int s + 1) = [])"
    using t6 e6 by blast
  have c5': "np_slice (acc_array cfg6 (batch_accs env0 cfg6 ?bs 0) 3) (int 3 - 4) (int 3 + 1) = []"
    using c5 s3 t4 by blast
  have c6: "\<forall>s<4. int s \<le> train_steps cfg3 \<longrightarrow>
                   sum_list (np_slice (acc_array cfg3 (batch_accs env0 cfg3 ?bs 0) s)
                               (int s - 4) (int s + 1)) / 5 \<noteq> 1"
    using t3 e3 b3 by blast
  have c6': "sum_list (np_slice (acc_array cfg3 (batch_accs env0 cfg3 ?bs 0) 3)
                  (int 3 - 4) (int 3 + 1)) / 5 \<noteq> 1"
    using c6 s3 by blast
  have b3': "0 < batch_size cfg3"
    "list_all (\<lambda>b. int (length (snd b)) \<le> batch_size cfg3) ?bs"
    using b3 by (simp_all add: list_all_iff)
  have t3': "train_steps cfg3 \<le> 3" by (simp add: cfg3_def)
  have s0: "(0::nat) < 4" "int 0 \<le> train_steps cfg3" by (simp_all add: cfg3_def)
  have c7: "\<forall>s<4. int s \<le> train_steps cfg3 \<longrightarrow>
              int s - 4 < 0
              \<and> (4 \<le> train_steps cfg3 \<longrightarrow>
                   np_slice (acc_array cfg3 (batch_accs env0 cfg3 ?bs 0) s)
                     (int s - 4) (int s + 1) = [])
              \<and> (train_steps cfg3 \<le> 3 \<longrightarrow>
                   np_slice (acc_array cfg3 (batch_accs env0 cfg3 ?bs 0) s)
                     (int s - 4) (int s + 1) \<noteq> [])"
    using t3 e3 by blast
  have c7': "np_slice (acc_array cfg3 (batch_accs env0 cfg3 ?bs 0) 0)
         (int 0 - 4) (int 0 + 1) \<noteq> []"
    using c7 s0 t3' by blast
  have c7v: "np_slice (acc_array cfg3 (batch_accs env0 cfg3 ?bs 0) 0)
         (int 0 - 4) (int 0 + 1) = [1/2]"
    by code_simp
  have hp: "0 \<le> train_steps cfg_p0" by (simp add: cfg_p0_def)
  have ep: "nat (train_steps cfg_p0) < length ?bs" by (simp add: cfg_p0_def env0_def)
  have pp: "print_every cfg_p0 = 0" by (simp add: cfg_p0_def)
  note tp = train_loop_stops[OF hp, of env0 ?bs 0]
  have c8: "batches_drawn (fst (run_loop env0 cfg_p0 ?bs 0)) = 1"
    using tp ep pp by blast
  have c9: "snd (snd (snd (run_loop env0 cfg_p0 ?bs 0))) = Some ZeroDivisionError"
    using tp ep pp by simp
  have part1: "0 \<le> train_steps cfg6 \<and> nat (train_steps cfg6) < length ?bs
   \<and> batches_drawn (fst (snd (train env0 cfg6))) \<le> nat (train_steps cfg6) + 1
   \<and> Store_acc 5 1 \<in> set (fst (snd (train env0 cfg6))) \<and> int 5 < train_steps cfg6 + 1
   \<and> batches_drawn (fst (run_loop env0 cfg6 ?bs 0)) = 6
   \<and> \<not> leaves cfg6 (acc_array cfg6 (batch_accs env0 cfg6 ?bs 0) 4) 4
   \<and> print_every cfg6 \<noteq> 0
   \<and> leaves cfg6 (acc_array cfg6 (batch_accs env0 cfg6 ?bs 0) 5) 5
   \<and> 4 \<le> train_steps cfg6
   \<and> np_slice (acc_array cfg6 (batch_accs env0 cfg6 ?bs 0) 3) (int 3 - 4) (int 3 + 1) = []"
    using h6 e6 c1 st c2 n c3' pe c4' t4 c5' by blast
  have part2: "0 \<le> train_steps cfg3 \<and> nat (train_steps cfg3) < length ?bs
   \<and> 0 < batch_size cfg3
   \<and> list_all (\<lambda>b. int (length (snd b)) \<le> batch_size cfg3) ?bs
   \<and> sum_list (np_slice (acc_array cfg3 (batch_accs env0 cfg3 ?bs 0) 3)
                  (int 3 - 4) (int 3 + 1)) / 5 \<noteq> 1
   \<and> train_steps cfg3 \<le> 3
   \<and> np_slice (acc_array cfg3 (batch_accs env0 cfg3 ?bs 0) 0)
         (int 0 - 4) (int 0 + 1) \<noteq> []
   \<and> np_slice (acc_array cfg3 (batch_accs env0 cfg3 ?bs 0) 0)
         (int 0 - 4) (int 0 + 1) = [1/2]"
    using h3 e3 b3' c6' t3' c7' c7v by blast
  have part3: "0 \<le> train_steps cfg_p0 \<and> nat (train_steps cfg_p0) < length ?bs
   \<and> print_every cfg_p0 = 0
   \<and> batches_drawn (fst (run_loop env0 cfg_p0 ?bs 0)) = 1
   \<and> snd (snd (snd (run_loop env0 cfg_p0 ?bs 0))) = Some ZeroDivisionError"
    using hp ep pp c8 c9 by blast
  show ?thesis
    using part1 part2 part3 by (simp only: conj_assoc) blast
qed

subsection \<open>The statistics\<close>

lemma first_largest_Max:
  assumes "first_largest A k"
  shows "A ! k = Max (set A)"
proof -
  have k: "k < length A" and le: "\<forall>j<length A. A ! j \<le> A ! k"
    using assms by (simp_all add: first_largest_def)
  have "Max (set A) = A ! k"
  proof (rule Max_eqI)
    show "finite (set A)" by simp
    show "y \<le> A ! k" if "y \<in> set A" for y
      using that le by (auto simp: in_set_conv_nth)
    show "A ! k \<in> set A" using k by simp
  qed
  then show ?thesis by simp
qed

text \<open>
  C10. Whenever \<open>train\<close> returns statistics, they are built from the accuracy array \<open>A\<close>
  that the run saved: \<open>accs\<close> is \<open>A\<close>, of length \<open>train_steps + 1\<close>; \<open>num steps\<close> is
  \<open>train_steps + 1\<close>, however many batches were drawn; \<open>best acc\<close> is the maximum of \<open>A\<close> and
  \<open>step best acc\<close> the smallest index that attains it; \<open>last acc\<close> is the last entry of
  \<open>A\<close>, which is 0 when the run drew at most \<open>train_steps\<close> batches, that is when it
  stopped before the step \<open>train_steps\<close>.
\<close>

theorem train_statistics:
  assumes "snd (snd (train E config)) = Inr (Some st)"
  shows "\<exists>A k. st = [(''last acc'', PyFloat (last A)),
                     (''best acc'', PyFloat (Max (set A))),
                     (''step best acc'', PyInt (int k)),
                     (''num steps'', PyInt (train_steps config + 1)),
                     (''accs'', PyArray A)]
           \<and> 0 \<le> train_steps config
           \<and> length A = nat (train_steps config + 1)
           \<and> (\<exists>name. Numpy_save name (Floats A) \<in> set (fst (snd (train E config))))
           \<and> k < length A \<and> A ! k = Max (set A) \<and> (\<forall>j<k. A ! j < Max (set A))
           \<and> (batches_drawn (fst (snd (train E config))) \<le> nat (train_steps config)
                \<longrightarrow> last A = 0)"
proof (cases rule: train_run[where config = config and E = E])
  case asserted
  then show ?thesis using assms by simp
next
  case (no_loop ev1 e)
  then show ?thesis using assms by simp
next
  case (loop c ev1 ev2 A model' r)
  let ?A0 = "replicate (nat (train_steps config + 1)) (0::rat)"
  let ?bs = "batches E (input_length config + 1) (batch_size config)"
  let ?m = "new_model E c (input_length config) (input_dim config) (num_hidden config)
            (num_classes config) (batch_size config) (select_device E config)"
  have r: "r = None" using assms loop(8) by (auto split: option.splits)
  have st: "train_stats A = Inr st"
    using assms loop(8) r by (auto split: if_splits sum.splits)
  have ne: "A \<noteq> []" using st train_stats_empty by auto
  note arr = train_loop_array[of E "lowered config" 0 ?bs ?m ?A0, unfolded loop(6) fst_conv snd_conv]
  have len: "length A = nat (train_steps config + 1)" using arr by simp
  have "0 < length A" using ne by simp
  then have T: "0 \<le> train_steps config" unfolding len by linarith
  have fl: "first_largest A (argmax A)" by (rule argmax_first_largest[OF ne])
  have mx: "A ! argmax A = Max (set A)" by (rule first_largest_Max[OF fl])
  have st': "st = [(''last acc'', PyFloat (last A)),
                     (''best acc'', PyFloat (Max (set A))),
                     (''step best acc'', PyInt (int (argmax A))),
                     (''num steps'', PyInt (train_steps config + 1)),
                     (''accs'', PyArray A)]"
    using st train_stats_nonempty[OF ne] len T by (simp add: mx)
  have e1: "batches_drawn ev1 = 0"
    using train_setup_events_no_step(2)[of E "lowered config"] loop(3) by simp
  have n: "batches_drawn (fst (snd (train E config))) = batches_drawn ev2"
    unfolding loop(7) using e1
    by (simp add: batches_drawn_simps batches_drawn_Cons train_saves_no_step split: option.splits)
  have sv: "Numpy_save (''train_acc_'' @ model_type (lowered config)
                          @ str_int (input_length (lowered config))) (Floats A)
              \<in> set (fst (snd (train E config)))"
    unfolding loop(7) r by (simp add: train_saves_def)
  have last0: "last A = 0" if "batches_drawn ev2 \<le> nat (train_steps config)"
  proof -
    have "A ! nat (train_steps config) = ?A0 ! nat (train_steps config)"
      using arr that by simp
    also have "\<dots> = 0" using T by simp
    finally have "A ! nat (train_steps config) = 0" .
    moreover have "last A = A ! nat (train_steps config)"
      using ne len T by (simp add: last_conv_nth nat_add_distrib)
    ultimately show ?thesis by simp
  qed
  have k: "argmax A < length A" "\<forall>j<argmax A. A ! j < Max (set A)"
    using fl mx by (simp_all add: first_largest_def)
  show ?thesis
    unfolding n using st' T len sv k mx last0 by blast
qed

theorem train_statistics_witness:
  "snd (snd (train env0 cfg6))
     = Inr (Some [(''last acc'', PyFloat 0), (''best acc'', PyFloat 1),
                  (''step best acc'', PyInt 1), (''num steps'', PyInt 7),
                  (''accs'', PyArray [1/2, 1, 1, 1, 1, 1, 0])])
   \<and> batches_drawn (fst (snd (train env0 cfg6))) = 6
   \<and> (\<exists>A k. [(''last acc'', PyFloat 0), (''best acc'', PyFloat 1),
               (''step best acc'', PyInt 1), (''num steps'', PyInt 7),
               (''accs'', PyArray [1/2, 1, 1, 1, 1, 1, 0])]
                = [(''last acc'', PyFloat (last A)),
                     (''best acc'', PyFloat (Max (set A))),
                     (''step best acc'', PyInt (int k)),
                     (''num steps'', PyInt (train_steps cfg6 + 1)),
                     (''accs'', PyArray A)]
           \<and> 0 \<le> train_steps cfg6
           \<and> length A = nat (train_steps cfg6 + 1)
           \<and> (\<exists>name. Numpy_save name (Floats A) \<in> set (fst (snd (train env0 cfg6))))
           \<and> k < length A \<and> A ! k = Max (set A) \<and> (\<forall>j<k. A ! j < Max (set A))
           \<and> (batches_drawn (fst (snd (train env0 cfg6))) \<le> nat (train_steps cfg6)
                \<longrightarrow> last A = 0))"
proof -
  have r: "snd (snd (train env0 cfg6))
     = Inr (Some [(''last acc'', PyFloat 0), (''best acc'', PyFloat 1),
                  (''step best acc'', PyInt 1), (''num steps'', PyInt 7),
                  (''accs'', PyArray [1/2, 1, 1, 1, 1, 1, 0])])"
    by code_simp
  have n: "batches_drawn (fst (snd (train env0 cfg6))) = 6" by code_simp
  show ?thesis
    using train_statistics[OF r] r n by blast
qed

subsection \<open>The saved artifacts\<close>

lemma lower_char_idem: "lower_char (lower_char c) = lower_char c"
  by (simp add: lower_char_def)

lemma lower_idem: "lower (lower s) = lower s"
  by (simp add: lower_def lower_char_idem)

lemma lowered_idem: "lowered (lowered config) = lowered config"
  by (simp add: lowered_def lower_idem)

lemma train_config: "fst (train E config) = lowered config"
  by (cases rule: train_run[where config = config and E = E])
     (simp_all add: prod_eq_iff train_def lowered_def Let_def split: prod.splits sum.splits option.splits)

lemma str_int_500: "str_int 500 = ''500''"
  by code_simp

lemma is_save_not_step: "is_save e \<Longrightarrow> \<not> is_step_event e"
  by (cases e) simp_all

lemma train_setup_no_save:
  "filter is_save (fst (train_setup E config)) = []"
  "Print_done \<notin> set (fst (train_setup E config))"
  by (auto simp: train_setup_def Let_def split: option.splits sum.splits)

lemma train_loop_no_save:
  "filter is_save (fst (train_loop E config step bs model A)) = []"
  "Print_done \<notin> set (fst (train_loop E config step bs model A))"
proof -
  have s: "\<forall>e\<in>set (fst (train_loop E config step bs model A)). is_step_event e"
    by (rule train_loop_events_step)
  show "filter is_save (fst (train_loop E config step bs model A)) = []"
    using filter_step_events[OF s] is_save_not_step by blast
  show "Print_done \<notin> set (fst (train_loop E config step bs model A))"
    using s by auto
qed

lemma train_events_split:
  obtains (unfinished) e where
      "filter is_save (fst (snd (train E config))) = []"
      "Print_done \<notin> set (fst (snd (train E config)))"
      "snd (snd (train E config)) = Inl e"
  | (finished) pre A where
      "fst (snd (train E config)) = pre @ train_saves (lowered config) A"
      "filter is_save pre = []" "Print_done \<notin> set pre"
      "length A = nat (train_steps config + 1)"
proof (cases rule: train_run[where config = config and E = E])
  case asserted
  show ?thesis by (rule unfinished[of AssertionError]) (simp_all add: asserted)
next
  case (no_loop ev1 e)
  have "filter is_save ev1 = []" "Print_done \<notin> set ev1"
    using train_setup_no_save[of E "lowered config"] no_loop(2) by simp_all
  then show ?thesis by (intro unfinished[of e]) (simp_all add: no_loop(3))
next
  case (loop c ev1 ev2 A model' r)
  let ?A0 = "replicate (nat (train_steps config + 1)) (0::rat)"
  let ?bs = "batches E (input_length config + 1) (batch_size config)"
  let ?m = "new_model E c (input_length config) (input_dim config) (num_hidden config)
            (num_classes config) (batch_size config) (select_device E config)"
  have e1: "filter is_save ev1 = []" "Print_done \<notin> set ev1"
    using train_setup_no_save[of E "lowered config"] loop(3) by simp_all
  have e2: "filter is_save ev2 = []" "Print_done \<notin> set ev2"
    using train_loop_no_save[of E "lowered config" 0 ?bs ?m ?A0] loop(6) by simp_all
  have len: "length A = nat (train_steps config + 1)"
    using train_loop_array[of E "lowered config" 0 ?bs ?m ?A0] loop(6) by simp
  show ?thesis
  proof (cases r)
    case None
    show ?thesis
      by (rule finished[of "[Print_config (vars_config config)] @ ev1 @ ev2" A])
         (use loop(7) None e1 e2 len in simp_all)
  next
    case (Some e)
    show ?thesis
      by (rule unfinished[of e]) (use loop(7,8) Some e1 e2 in simp_all)
  qed
qed

lemma train_numpy_saves:
  assumes "Numpy_save name payload \<in> set (fst (snd (train E config)))"
  shows "name = ''train_acc_'' @ lower (model_type config) @ str_int (input_length config)
         \<and> (\<exists>A. payload = Floats A)"
proof (cases rule: train_events_split[where config = config and E = E])
  case (unfinished e)
  have "is_save (Numpy_save name payload)" by simp
  then have "Numpy_save name payload \<in> set (filter is_save (fst (snd (train E config))))"
    using assms by simp
  then show ?thesis using unfinished(1) by simp
next
  case (finished pre A)
  have "Numpy_save name payload \<notin> set pre"
  proof
    assume "Numpy_save name payload \<in> set pre"
    then have "Numpy_save name payload \<in> set (filter is_save pre)" by simp
    then show False using finished(2) by simp
  qed
  then show ?thesis using assms finished(1)
    by (auto simp: train_saves_def lowered_fields)
qed

lemma experiment_loop_numpy_saves:
  "Numpy_save name payload \<in> set (fst (snd (experiment_loop E config stats sls))) \<Longrightarrow>
   (\<exists>sl A. name = ''train_acc_'' @ lower (model_type config) @ str_int sl \<and> payload = Floats A)
   \<or> (\<exists>sts. name = ''experiment_stats_500'' @ lower (model_type config) @ ''500''
            \<and> payload = Objects sts)"
proof (induction sls arbitrary: config stats)
  case Nil
  then show ?case by simp
next
  case (Cons sl sls)
  let ?c = "config\<lparr>input_length := sl\<rparr>"
  obtain c' evs r where t: "train E ?c = (c', evs, r)" by (cases "train E ?c") auto
  have c': "c' = lowered ?c" using train_config[of E ?c] t by simp
  have mt: "lower (model_type ?c) = lower (model_type config)" by simp
  have mt': "model_type c' = lower (model_type config)" "lower (model_type c') = lower (model_type config)"
    by (simp_all add: c' lowered_fields lower_idem)
  have tr: "(\<exists>sl A. name = ''train_acc_'' @ lower (model_type config) @ str_int sl \<and> payload = Floats A)"
    if "Numpy_save name payload \<in> set evs"
    using train_numpy_saves[of name payload E ?c] that t by auto
  show ?case
  proof (cases r)
    case (Inl e)
    then show ?thesis using Cons.prems t tr by simp
  next
    case (Inr o1)
    show ?thesis
    proof (cases o1)
      case None
      then show ?thesis using Cons.prems t Inr tr by simp
    next
      case (Some st)
      obtain c'' evs' r' where
        l: "experiment_loop E c' (stats @ [add_config c' st]) sls = (c'', evs', r')"
        by (cases "experiment_loop E c' (stats @ [add_config c' st]) sls") auto
      have ev: "fst (snd (experiment_loop E config stats (sl # sls)))
                  = evs @ [Numpy_save (''experiment_stats_500'' @ model_type c' @ str_int 500)
                             (Objects (stats @ [add_config c' st]))] @ evs'"
        using t Inr Some l by (simp add: Let_def)
      have "Numpy_save name payload \<in> set evs
            \<or> (name = ''experiment_stats_500'' @ lower (model_type config) @ ''500''
                 \<and> payload = Objects (stats @ [add_config c' st]))
            \<or> Numpy_save name payload \<in> set evs'"
        using Cons.prems unfolding ev by (auto simp: mt' str_int_500)
      then show ?thesis
      proof (elim disjE)
        assume "Numpy_save name payload \<in> set evs"
        then show ?thesis using tr by blast
      next
        assume "name = ''experiment_stats_500'' @ lower (model_type config) @ ''500''
                 \<and> payload = Objects (stats @ [add_config c' st])"
        then show ?thesis by blast
      next
        assume "Numpy_save name payload \<in> set evs'"
        then have "Numpy_save name payload
                     \<in> set (fst (snd (experiment_loop E c' (stats @ [add_config c' st]) sls)))"
          using l by simp
        then show ?thesis using Cons.IH[of c' "stats @ [add_config c' st]"] mt' by simp
      qed
    qed
  qed
qed

text \<open>
  C7. When the loop of \<open>train\<close> is left without an exception (the run prints
  \<^verbatim>\<open>Done training.\<close>), the run ends with exactly two saves and has no other: the model
  to \<^verbatim>\<open><model_type>_model.pt\<close> by \<^verbatim>\<open>torch.save\<close>, then the accuracy array, of length
  \<open>train_steps + 1\<close>, to \<^verbatim>\<open>train_acc_<model_type><input_length>\<close> by \<^verbatim>\<open>numpy.save\<close>, with
  the lowered model type. A run that does not get there saves nothing and ends with an
  exception. The two call sites of \<^verbatim>\<open>numpy.save\<close> are the two kinds of \<open>Numpy_save\<close> events
  a sweep can make: the accuracy array of a training run and the statistics gathered by
  \<^verbatim>\<open>experiment\<close>, saved to \<^verbatim>\<open>experiment_stats_500<model_type>500\<close>.
\<close>

theorem train_saves_two_artifacts:
  "(Print_done \<in> set (fst (snd (train E config))) \<longrightarrow>
      (\<exists>pre A. fst (snd (train E config))
                  = pre @ [Print_done,
                           Torch_save (lower (model_type config) @ ''_model.pt''),
                           Numpy_save (''train_acc_'' @ lower (model_type config)
                                         @ str_int (input_length config)) (Floats A)]
               \<and> filter is_save pre = []
               \<and> length A = nat (train_steps config + 1)))
   \<and> (Print_done \<notin> set (fst (snd (train E config))) \<longrightarrow>
        filter is_save (fst (snd (train E config))) = []
        \<and> (\<exists>e. snd (snd (train E config)) = Inl e))
   \<and> (\<forall>name payload.
         Numpy_save name payload \<in> set (fst (snd (run_experiment E config))) \<longrightarrow>
           (\<exists>sl A. name = ''train_acc_'' @ lower (model_type config) @ str_int sl
                    \<and> payload = Floats A)
           \<or> (\<exists>sts. name = ''experiment_stats_500'' @ lower (model_type config) @ ''500''
                    \<and> payload = Objects sts))"
proof -
  have a: "\<exists>pre A. fst (snd (train E config))
                  = pre @ [Print_done,
                           Torch_save (lower (model_type config) @ ''_model.pt''),
                           Numpy_save (''train_acc_'' @ lower (model_type config)
                                         @ str_int (input_length config)) (Floats A)]
               \<and> filter is_save pre = []
               \<and> length A = nat (train_steps config + 1)"
    if d: "Print_done \<in> set (fst (snd (train E config)))"
  proof (cases rule: train_events_split[where config = config and E = E])
    case (unfinished e)
    then show ?thesis using d by simp
  next
    case (finished pre A)
    then show ?thesis by (auto simp: train_saves_def lowered_fields)
  qed
  have b: "filter is_save (fst (snd (train E config))) = []
        \<and> (\<exists>e. snd (snd (train E config)) = Inl e)"
    if d: "Print_done \<notin> set (fst (snd (train E config)))"
  proof (cases rule: train_events_split[where config = config and E = E])
    case (unfinished e)
    then show ?thesis by simp
  next
    case (finished pre A)
    then show ?thesis using d by (simp add: train_saves_def)
  qed
  have c: "(\<exists>sl A. name = ''train_acc_'' @ lower (model_type config) @ str_int sl
                    \<and> payload = Floats A)
           \<or> (\<exists>sts. name = ''experiment_stats_500'' @ lower (model_type config) @ ''500''
                    \<and> payload = Objects sts)"
    if "Numpy_save name payload \<in> set (fst (snd (run_experiment E config)))"
    for name payload
    using that unfolding run_experiment_def Let_def by (rule experiment_loop_numpy_saves)
  show ?thesis using a b c by blast
qed

theorem train_saves_two_artifacts_witness:
  "Print_done \<in> set (fst (snd (train env0 cfg2)))
   \<and> (\<exists>pre A. fst (snd (train env0 cfg2))
                  = pre @ [Print_done,
                           Torch_save (lower (model_type cfg2) @ ''_model.pt''),
                           Numpy_save (''train_acc_'' @ lower (model_type cfg2)
                                         @ str_int (input_length cfg2)) (Floats A)]
               \<and> filter is_save pre = []
               \<and> length A = nat (train_steps cfg2 + 1))
   \<and> Print_done \<notin> set (fst (snd (train env0 cfg_gru)))
   \<and> filter is_save (fst (snd (train env0 cfg_gru))) = []
   \<and> (\<exists>e. snd (snd (train env0 cfg_gru)) = Inl e)
   \<and> Numpy_save ''train_acc_rrn50'' (Floats [1/2])
        \<in> set (fst (snd (run_experiment env0 cfg_sweep)))
   \<and> ((\<exists>sl A. ''train_acc_rrn50'' = ''train_acc_'' @ lower (model_type cfg_sweep) @ str_int sl
                \<and> Floats [1/2] = Floats A)
        \<or> (\<exists>sts. ''train_acc_rrn50''
                     = ''experiment_stats_500'' @ lower (model_type cfg_sweep) @ ''500''
                 \<and> Floats [1/2] = Objects sts))"
proof -
  have d2: "Print_done \<in> set (fst (snd (train env0 cfg2)))" by code_simp
  have dg: "Print_done \<notin> set (fst (snd (train env0 cfg_gru)))" by code_simp
  have sw: "Numpy_save ''train_acc_rrn50'' (Floats [1/2])
        \<in> set (fst (snd (run_experiment env0 cfg_sweep)))"
    by code_simp
  show ?thesis
    using train_saves_two_artifacts[of env0 cfg2] train_saves_two_artifacts[of env0 cfg_gru]
      train_saves_two_artifacts[of env0 cfg_sweep] d2 dg sw
    by blast
qed

subsection \<open>The sweep\<close>












subsection \<open>The entry point\<close>



text \<open>
  C9. \<^verbatim>\<open>--experiment\<close> parses to true for every non-empty string, \<^verbatim>\<open>False\<close> and \<^verbatim>\<open>0\<close>
  among them, and when it is absent; the entry point takes the single-run path exactly
  when the option is given the empty string.
\<close>

theorem experiment_option_parse:
  "(\<forall>s. s \<noteq> [] \<longrightarrow> parse_experiment (Some s))
   \<and> parse_experiment (Some ''False'') \<and> parse_experiment (Some ''0'')
   \<and> parse_experiment None
   \<and> \<not> parse_experiment (Some [])
   \<and> (fst (main E parsed raw) = Single_run \<longleftrightarrow> raw = Some [])"
proof -
  have m: "fst (main E parsed raw) = (if parse_experiment raw then Sweep else Single_run)"
    by (simp add: main_def split: prod.splits)
  have p: "parse_experiment raw \<longleftrightarrow> raw \<noteq> Some []"
    by (cases raw) (simp_all add: parse_experiment_def py_bool_str_def)
  show ?thesis
    unfolding m p by (simp add: parse_experiment_def py_bool_str_def)
qed

theorem experiment_option_parse_witness:
  "''no'' \<noteq> [] \<and> parse_experiment (Some ''no'')
   \<and> fst (main env0 cfg0 (Some [])) = Single_run
   \<and> fst (main env0 cfg0 (Some ''False'')) \<noteq> Single_run"
  using experiment_option_parse[of env0 cfg0 "Some []"]
    experiment_option_parse[of env0 cfg0 "Some ''False''"]
  by simp

end
